theory Spec2Isabelle
  imports Complex_Main
begin

section \<open>Python values used by wallet\_manager.py\<close>

subsection \<open>Strings\<close>

text \<open>
  A \<open>str\<close> is a HOL string; a character stands for the code point of the same number
  (0 to 255). \<open>str.lower()\<close> maps the upper-case letters of that range (A to Z, and the
  Latin-1 capitals 192 to 222 without the multiplication sign 215) to the letter 32 places
  further on and leaves every other character alone.
\<close>

definition lower_char :: "char \<Rightarrow> char" where
  "lower_char c =
     (let n = (of_char c :: nat)
      in if (65 \<le> n \<and> n \<le> 90) \<or> (192 \<le> n \<and> n \<le> 222 \<and> n \<noteq> 215)
         then char_of (n + 32) else c)"

definition lower :: "string \<Rightarrow> string" where
  "lower s = map lower_char s"

text \<open>\<open>s.startswith(p)\<close> and the substring test \<open>p in s\<close>.\<close>

fun startswith :: "string \<Rightarrow> string \<Rightarrow> bool" where
  "startswith s [] = True"
| "startswith [] (p # ps) = False"
| "startswith (c # cs) (p # ps) = (c = p \<and> startswith cs ps)"

fun str_in :: "string \<Rightarrow> string \<Rightarrow> bool" where
  "str_in p [] = (p = [])"
| "str_in p (c # cs) = (startswith (c # cs) p \<or> str_in p cs)"

subsection \<open>Floats\<close>

text \<open>
  A \<open>float\<close> is a finite number, one of the two infinities, or not-a-number. Finite values
  are kept as exact rationals: the program only converts, compares and prints floats, and
  the comparison of two finite doubles is the comparison of the numbers they denote.
  Rounding to 53 bits at conversion is not modelled.
\<close>

datatype pyfloat = Fin rat | PosInf | NegInf | NaN

text \<open>\<open>a < b\<close> on floats: false as soon as one side is NaN.\<close>

fun float_lt :: "pyfloat \<Rightarrow> pyfloat \<Rightarrow> bool" where
  "float_lt NaN b = False"
| "float_lt a NaN = False"
| "float_lt (Fin x) (Fin y) = (x < y)"
| "float_lt (Fin x) PosInf = True"
| "float_lt (Fin x) NegInf = False"
| "float_lt PosInf b = False"
| "float_lt NegInf NegInf = False"
| "float_lt NegInf b = True"

text \<open>\<open>a <= b\<close> on floats, likewise false on NaN.\<close>

fun float_le :: "pyfloat \<Rightarrow> pyfloat \<Rightarrow> bool" where
  "float_le NaN b = False"
| "float_le a NaN = False"
| "float_le (Fin x) (Fin y) = (x \<le> y)"
| "float_le (Fin x) PosInf = True"
| "float_le (Fin x) NegInf = False"
| "float_le PosInf PosInf = True"
| "float_le PosInf b = False"
| "float_le NegInf b = True"

subsection \<open>Calls that may raise\<close>

datatype 'a outcome = Returns 'a | Raises

section \<open>What the program does to the outside world\<close>

text \<open>
  A run is recorded as the list of its events, in order. \<open>Print\<close> holds the pieces that
  the \<open>print\<close> statement formats: literal text and the values put between it. A newline
  at the start of a message (which only prints an empty line first) is left out.
\<close>

datatype part =
    S string      \<comment> \<open>text, or a \<open>str\<close> value\<close>
  | I int         \<comment> \<open>an \<open>int\<close> value\<close>
  | F pyfloat     \<comment> \<open>an amount\<close>
  | B bool        \<comment> \<open>a \<open>bool\<close> value\<close>
  | Upper string  \<comment> \<open>\<open>s.upper()\<close>\<close>
  | Path string string  \<comment> \<open>the path \<open>Path(dir) / name\<close>\<close>
  | Obj string    \<comment> \<open>the text of the named Python expression, which is not modelled\<close>

datatype event =
    Print "part list"
  | TransferReload                     \<comment> \<open>\<open>transfer.reload()\<close>\<close>
  | Sleep nat                          \<comment> \<open>\<open>time.sleep(n)\<close>\<close>
  | OpenWalletFile string string       \<comment> \<open>\<open>open(wallet_path / name, 'r')\<close>\<close>
  | WalletList                         \<comment> \<open>\<open>Wallet.list()\<close>\<close>
  | WalletReload                       \<comment> \<open>\<open>wallet.reload()\<close>\<close>
  | WalletBalances                     \<comment> \<open>\<open>wallet.balances()\<close>\<close>
  | AskConfirmation                    \<comment> \<open>\<open>input(...)\<close>\<close>
  | WalletTransfer pyfloat string string bool
      \<comment> \<open>\<open>wallet.transfer(amount, asset_id, destination, gasless)\<close>\<close>
  | WalletCreate string                \<comment> \<open>\<open>Wallet.create(network)\<close>\<close>
  | WriteWalletFile string string string string string
      \<comment> \<open>directory and file name, then the address, network and wallet id dumped into it\<close>
  | WalletFaucet                       \<comment> \<open>\<open>wallet.faucet()\<close>\<close>
  | FaucetWait                         \<comment> \<open>\<open>faucet_tx.wait()\<close>\<close>

text \<open>The lines of \<open>for aid, balance in balances.items(): print(...)\<close>.\<close>

definition balance_lines :: "(string \<times> pyfloat) list \<Rightarrow> event list" where
  "balance_lines balances = map (\<lambda>(aid, balance). Print [Upper aid, S '': '', F balance]) balances"

section \<open>Waiting for a transfer\<close>

text \<open>
  The remote transfer as the loop meets it. The \<open>i\<close>-th pass through the loop body gets
  \<open>polls i\<close>: how long \<open>transfer.reload()\<close> takes, what \<open>str(transfer.status)\<close> is
  afterwards (\<open>None\<close> when the reload raises), and by how much \<open>time.sleep(2)\<close>
  oversleeps. Times are in microseconds, the resolution of \<open>datetime\<close>, and
  \<open>time.sleep(2)\<close> takes at least two seconds.
\<close>

record poll =
  reload_time :: nat
  status_after :: "string option"
  oversleep :: nat

record transfer =
  status :: string
  polls :: "nat \<Rightarrow> poll"
  transaction_hash :: "string option"
  transaction_link :: "string option"
  error :: "string option"

text \<open>
  The \<open>while datetime.now() < timeout\<close> loop of \<open>_wait_for_transfer\<close>, from its \<open>i\<close>-th
  pass on, entered when the clock reads \<open>now\<close>, under a steady clock: one that is not
  adjusted during the wait. The result is what the function returns, the events of the
  remaining passes in order, and the clock reading at the end.
\<close>

function wait_loop ::
  "(nat \<Rightarrow> poll) \<Rightarrow> int \<Rightarrow> int \<Rightarrow> nat \<Rightarrow> int \<Rightarrow> bool outcome \<times> event list \<times> int" where
  "wait_loop ps timeout_minutes timeout i now =
     (if now < timeout then
        (case status_after (ps i) of
           None \<Rightarrow> (Raises, [TransferReload], now + int (reload_time (ps i)))
         | Some current_status \<Rightarrow>
             (if str_in ''complete'' (lower current_status) then
                (Returns True,
                 [TransferReload, Print [S ''Current status: '', S current_status],
                  Print [S ''Transfer completed!'']],
                 now + int (reload_time (ps i)))
              else if str_in ''failed'' (lower current_status) then
                (Returns False,
                 [TransferReload, Print [S ''Current status: '', S current_status],
                  Print [S ''Transfer failed!'']],
                 now + int (reload_time (ps i)))
              else if str_in ''pending'' (lower current_status) then
                (case wait_loop ps timeout_minutes timeout (i + 1)
                        (now + int (reload_time (ps i)) + 2000000 + int (oversleep (ps i))) of
                   (r, evs, fin) \<Rightarrow>
                     (r, [TransferReload, Print [S ''Current status: '', S current_status],
                          Print [S ''.''], Sleep 2] @ evs, fin))
              else
                (Returns False,
                 [TransferReload, Print [S ''Current status: '', S current_status],
                  Print [S ''Unexpected status: '', S current_status]],
                 now + int (reload_time (ps i)))))
      else (Returns False,
            [Print [S ''Transfer timed out after '', I timeout_minutes, S '' minutes!'']], now))"
  by pat_completeness auto
termination
  by (relation "measure (\<lambda>(ps, m, timeout, i, now). nat (timeout - now))") auto

declare wait_loop.simps [simp del]

text \<open>
  \<open>_wait_for_transfer(transfer, timeout_minutes)\<close>, called when the clock reads
  \<open>start_time\<close>; \<open>delay\<close> is the time that passes between that reading and the first test
  of the loop condition.
\<close>

definition transfer_details :: "transfer \<Rightarrow> event list" where
  "transfer_details tr =
     [Print [S ''Transfer object details:''],
      Print [S ''All attributes: '', Obj ''dir(transfer)''],
      Print [S ''Status value: '', S (status tr)],
      Print [S ''Status type: '', Obj ''type(transfer.status)''],
      Print [S ''Status class module: '', Obj ''transfer.status.__class__.__module__''],
      Print [S ''Status possible values: '', Obj ''members of type(transfer.status)'']]"

definition wait_for_transfer ::
  "transfer \<Rightarrow> int \<Rightarrow> int \<Rightarrow> nat \<Rightarrow> bool outcome \<times> event list \<times> int" where
  "wait_for_transfer tr timeout_minutes start_time delay =
     (case wait_loop (polls tr) timeout_minutes (start_time + timeout_minutes * 60000000) 0
             (start_time + int delay) of
        (r, evs, fin) \<Rightarrow> (r, transfer_details tr @ evs, fin))"

text \<open>The number of \<open>transfer.reload()\<close> calls among some events.\<close>

definition reloads :: "event list \<Rightarrow> nat" where
  "reloads evs = length (filter (\<lambda>e. e = TransferReload) evs)"

text \<open>
  The clock that \<open>datetime.now()\<close> reads is local time without a zone: it is set back an
  hour when summer time ends, forward when it begins, and whenever the machine's clock is
  corrected. A \<open>datetime\<close> is a number of microseconds from 0001-01-01 00:00:00, and
  9999-12-31 23:59:59.999999 is the last one; adding a \<open>timedelta\<close> raises
  \<open>OverflowError\<close> when the sum lies outside this range.
\<close>

definition datetime_max :: int where
  "datetime_max = 315537897599999999"

definition is_datetime :: "int \<Rightarrow> bool" where
  "is_datetime t \<longleftrightarrow> 0 \<le> t \<and> t \<le> datetime_max"

text \<open>
  The loop once more, under such a clock: \<open>shift i\<close> is by how much the clock is set forward
  (back, when negative) while pass \<open>i\<close> sleeps. Nothing makes this loop end, so the run is
  an option: \<open>None\<close> is the run that polls for ever.
\<close>

partial_function (option) wait_loop_local_clock ::
  "(nat \<Rightarrow> int) \<Rightarrow> (nat \<Rightarrow> poll) \<Rightarrow> int \<Rightarrow> int \<Rightarrow> nat \<Rightarrow> int
     \<Rightarrow> (bool outcome \<times> event list \<times> int) option" where
  "wait_loop_local_clock shift ps timeout_minutes timeout i now =
     (if now < timeout then
        (case status_after (ps i) of
           None \<Rightarrow> Some (Raises, [TransferReload], now + int (reload_time (ps i)))
         | Some current_status \<Rightarrow>
             (if str_in ''complete'' (lower current_status) then
                Some (Returns True,
                      [TransferReload, Print [S ''Current status: '', S current_status],
                       Print [S ''Transfer completed!'']],
                      now + int (reload_time (ps i)))
              else if str_in ''failed'' (lower current_status) then
                Some (Returns False,
                      [TransferReload, Print [S ''Current status: '', S current_status],
                       Print [S ''Transfer failed!'']],
                      now + int (reload_time (ps i)))
              else if str_in ''pending'' (lower current_status) then
                Option.bind
                  (wait_loop_local_clock shift ps timeout_minutes timeout (i + 1)
                     (now + int (reload_time (ps i)) + 2000000 + int (oversleep (ps i)) + shift i))
                  (\<lambda>(r, evs, fin).
                     Some (r, [TransferReload, Print [S ''Current status: '', S current_status],
                               Print [S ''.''], Sleep 2] @ evs, fin))
              else
                Some (Returns False,
                      [TransferReload, Print [S ''Current status: '', S current_status],
                       Print [S ''Unexpected status: '', S current_status]],
                      now + int (reload_time (ps i)))))
      else Some (Returns False,
                 [Print [S ''Transfer timed out after '', I timeout_minutes, S '' minutes!'']],
                 now))"

text \<open>
  \<open>_wait_for_transfer(transfer, timeout_minutes)\<close> under that clock. The deadline is computed
  first, before anything is printed; \<open>delay\<close> is the difference between the reading
  \<open>start_time\<close> and the reading at the first test of the loop condition.
\<close>

definition wait_for_transfer_local_clock ::
  "(nat \<Rightarrow> int) \<Rightarrow> transfer \<Rightarrow> int \<Rightarrow> int \<Rightarrow> int
     \<Rightarrow> (bool outcome \<times> event list \<times> int) option" where
  "wait_for_transfer_local_clock shift tr timeout_minutes start_time delay =
     (if is_datetime (start_time + timeout_minutes * 60000000) then
        Option.bind
          (wait_loop_local_clock shift (polls tr) timeout_minutes
             (start_time + timeout_minutes * 60000000) 0 (start_time + delay))
          (\<lambda>(r, evs, fin). Some (r, transfer_details tr @ evs, fin))
      else Some (Raises, [], start_time))"

section \<open>Sending tokens\<close>

text \<open>
  A wallet of the remote service, as far as the program reads it. \<open>default_address\<close> is
  the \<open>address_id\<close> of the wallet's default address, \<open>None\<close> for a wallet without one.
\<close>

record wallet =
  wallet_id :: string
  default_address :: "string option"
  can_sign :: bool
  server_signer_status :: string

text \<open>
  What \<open>open(wallet_file)\<close> and \<open>json.load\<close> give: no such file, another failure, or the
  loaded data, of which only the entry \<open>'network'\<close> is read (\<open>None\<close> when it is missing).
\<close>

datatype wallet_file = FileNotFound | LoadFails | WalletInfo "string option"

text \<open>
  Everything outside the program that one run of \<open>send_tokens\<close> meets, in the order of
  the calls: the wallet file, \<open>Wallet.list()\<close>, the wallet after \<open>reload()\<close>,
  \<open>balances()\<close> (amounts as \<open>float(...)\<close> reads them), the answer typed at the prompt,
  the transfer that \<open>wallet.transfer(...)\<close> creates, the clock when the wait begins, and
  the second \<open>reload()\<close> and \<open>balances()\<close>.
\<close>

record send_world =
  local_file :: wallet_file
  wallets :: "wallet list outcome"
  reloaded :: "wallet outcome"
  balances :: "(string \<times> pyfloat) list outcome"
  confirmation :: "string outcome"
  created_transfer :: "transfer outcome"
  wait_start :: int
  wait_delay :: nat
  reloaded_again :: "unit outcome"
  balances_again :: "(string \<times> pyfloat) list outcome"

text \<open>
  A stretch of the \<open>try\<close> block: its events, and whether it ended normally or with an
  exception on its way to the handler around it.
\<close>

definition after :: "event list \<Rightarrow> event list \<times> 'a \<Rightarrow> event list \<times> 'a" where
  "after evs r = (evs @ fst r, snd r)"

text \<open>The loop that looks for the wallet with the given default address.\<close>

fun find_wallet :: "string \<Rightarrow> wallet list \<Rightarrow> wallet option outcome" where
  "find_wallet a [] = Returns None"
| "find_wallet a (w # ws) =
     (case default_address w of
        None \<Rightarrow> Raises
      | Some x \<Rightarrow> if x = a then Returns (Some w) else find_wallet a ws)"

text \<open>Waiting for the transfer and reporting (from \<open>if self._wait_for_transfer(transfer)\<close>).\<close>

definition report_transfer :: "send_world \<Rightarrow> transfer \<Rightarrow> event list \<times> unit outcome" where
  "report_transfer w tr =
     (case wait_for_transfer tr 10 (wait_start w) (wait_delay w) of
        (Raises, evs, fin) \<Rightarrow> (evs, Raises)
      | (Returns True, evs, fin) \<Rightarrow>
          after (evs @ [Print [S ''Transfer completed successfully!'']]
                 @ (case transaction_hash tr of
                      None \<Rightarrow> [] | Some h \<Rightarrow> [Print [S ''Transaction hash: '', S h]])
                 @ (case transaction_link tr of
                      None \<Rightarrow> [] | Some l \<Rightarrow> [Print [S ''Transaction link: '', S l]])
                 @ [WalletReload])
            (case reloaded_again w of
               Raises \<Rightarrow> ([], Raises)
             | Returns u \<Rightarrow>
                 after [Print [S ''Updated balance:''], WalletBalances]
                   (case balances_again w of
                      Raises \<Rightarrow> ([], Raises)
                    | Returns bs \<Rightarrow> (balance_lines bs, Returns ())))
      | (Returns False, evs, fin) \<Rightarrow>
          (evs @ [Print [S ''Transfer failed or timed out!'']]
             @ (case error tr of None \<Rightarrow> [] | Some e \<Rightarrow> [Print [S ''Error details: '', S e]]),
           Returns ()))"

text \<open>The prompt and the submission (from \<open>confirm = input(...)\<close>); \<open>asset_id\<close> is already lowered.\<close>

definition confirm_and_submit ::
  "send_world \<Rightarrow> string \<Rightarrow> pyfloat \<Rightarrow> string \<Rightarrow> event list \<times> unit outcome" where
  "confirm_and_submit w to_address quantity asset_id =
     after [AskConfirmation]
       (case confirmation w of
          Raises \<Rightarrow> ([], Raises)
        | Returns confirm \<Rightarrow>
            if lower confirm \<noteq> ''yes'' then ([Print [S ''Transaction cancelled'']], Returns ())
            else
              after [Print [S ''Preparing transaction...''], Print [S ''Creating transfer...''],
                     WalletTransfer quantity asset_id to_address (asset_id = ''usdc'')]
                (case created_transfer w of
                   Raises \<Rightarrow> ([], Raises)
                 | Returns tr \<Rightarrow>
                     after [Print [S ''Transfer created with status: '', S (status tr)]]
                       (report_transfer w tr)))"

text \<open>The balance check and the transaction details (from \<open>Checking current balance...\<close>).\<close>

definition check_balance ::
  "send_world \<Rightarrow> string option \<Rightarrow> string \<Rightarrow> string \<Rightarrow> pyfloat \<Rightarrow> string
     \<Rightarrow> event list \<times> unit outcome" where
  "check_balance w network from_address to_address quantity asset_id0 =
     after [Print [S ''Checking current balance...''], WalletBalances]
       (case balances w of
          Raises \<Rightarrow>
            ([Print [S ''Error checking balance: '', Obj ''str(e)''],
              Print [Obj ''traceback.format_exc()'']], Returns ())
        | Returns bs \<Rightarrow>
            (let asset_id = lower asset_id0;
                 current_balance = (case map_of bs asset_id of None \<Rightarrow> Fin 0 | Some b \<Rightarrow> b)
             in after (Print [S ''Current balance:''] # balance_lines bs)
                  (if float_lt current_balance quantity then
                     ([Print [S ''Error: Insufficient balance''],
                       Print [S ''Required: '', F quantity, S '' '', Upper asset_id],
                       Print [S ''Available: '', F current_balance, S '' '', Upper asset_id]],
                      Returns ())
                   else
                     after [Print [S ''Transaction Details:''],
                            Print [S ''From: '', S from_address],
                            Print [S ''To: '', S to_address],
                            Print [S ''Amount: '', F quantity],
                            Print [S ''Asset ID: '', S asset_id]]
                       (case network of
                          None \<Rightarrow> ([], Raises)
                        | Some n \<Rightarrow>
                            after [Print [S ''Network: '', S n],
                                   Print [S ''Gasless: '', B (asset_id = ''usdc'')]]
                              (confirm_and_submit w to_address quantity asset_id)))))"

text \<open>Finding and refreshing the wallet (from \<open>Locating wallet\<close>).\<close>

definition locate_wallet ::
  "send_world \<Rightarrow> string option \<Rightarrow> string \<Rightarrow> string \<Rightarrow> pyfloat \<Rightarrow> string
     \<Rightarrow> event list \<times> unit outcome" where
  "locate_wallet w network from_address to_address quantity asset_id =
     after [Print [S ''Locating wallet '', S from_address, S ''...''], WalletList]
       (case wallets w of
          Raises \<Rightarrow> ([], Raises)
        | Returns ws \<Rightarrow>
            (case find_wallet from_address ws of
               Raises \<Rightarrow> ([], Raises)
             | Returns None \<Rightarrow>
                 ([Print [S ''Error: Wallet '', S from_address, S '' not found in CDP'']],
                  Returns ())
             | Returns (Some target_wallet) \<Rightarrow>
                 after [WalletReload]
                   (case reloaded w of
                      Raises \<Rightarrow> ([], Raises)
                    | Returns tw \<Rightarrow>
                        after [Print [S ''Wallet signing capability: '', B (can_sign tw)],
                               Print [S ''Server signer status: '', S (server_signer_status tw)]]
                          (check_balance w network from_address to_address quantity asset_id))))"

text \<open>
  \<open>send_tokens(from_address, to_address, quantity, asset_id)\<close> with \<open>self.wallet_path\<close>.
  The function returns \<open>None\<close> on every path; what it did is its list of events. The
  outermost \<open>except Exception\<close> turns every exception that reaches it into two lines.
\<close>

definition send_tokens ::
  "send_world \<Rightarrow> string \<Rightarrow> string \<Rightarrow> string \<Rightarrow> pyfloat \<Rightarrow> string \<Rightarrow> event list" where
  "send_tokens w wallet_path from_address to_address quantity asset_id =
     (case after [OpenWalletFile wallet_path (from_address @ ''.txt'')]
             (case local_file w of
                FileNotFound \<Rightarrow>
                  ([Print [S ''Error: Wallet file not found at '',
                           Path wallet_path (from_address @ ''.txt'')]], Returns ())
              | LoadFails \<Rightarrow> ([], Raises)
              | WalletInfo network \<Rightarrow>
                  locate_wallet w network from_address to_address quantity asset_id) of
        (evs, Returns u) \<Rightarrow> evs
      | (evs, Raises) \<Rightarrow>
          evs @ [Print [S ''Error sending tokens: '', Obj ''str(e)''],
                 Print [Obj ''traceback.format_exc()'']])"

section \<open>Creating a wallet\<close>

text \<open>How a call of the program ends: it returns, or \<open>sys.exit(n)\<close> ends the process.\<close>

datatype ending = Returned | SysExit nat

text \<open>
  What one run of \<open>create_wallet\<close> meets: the wallet that \<open>Wallet.create\<close> makes, whether
  the wallet file can be written, \<open>wallet.faucet()\<close>, \<open>faucet_tx.wait()\<close> and
  \<open>wallet.balances()\<close>.
\<close>

record creation_world =
  created :: "wallet outcome"
  write_ok :: bool
  faucet_result :: "unit outcome"
  faucet_wait :: "unit outcome"
  initial_balances :: "(string \<times> pyfloat) list outcome"

text \<open>The inner \<open>try\<close> block: funding from the faucet. Its \<open>except\<close> swallows every exception.\<close>

definition fund_wallet :: "creation_world \<Rightarrow> event list" where
  "fund_wallet w =
     fst (case after [WalletFaucet]
                 (case faucet_result w of
                    Raises \<Rightarrow> ([], Raises)
                  | Returns u \<Rightarrow>
                      after [FaucetWait]
                        (case faucet_wait w of
                           Raises \<Rightarrow> ([], Raises)
                         | Returns u \<Rightarrow>
                             after [Print [S ''Wallet funded successfully with testnet ETH''],
                                    Print [S ''Initial balance:''], WalletBalances]
                               (case initial_balances w of
                                  Raises \<Rightarrow> ([], Raises)
                                | Returns bs \<Rightarrow> (balance_lines bs, Returns ())))) of
            (evs, Returns u) \<Rightarrow> (evs, ())
          | (evs, Raises) \<Rightarrow>
              (evs @ [Print [S ''Note: Faucet funding failed: '', Obj ''str(e)'']], ()))"

text \<open>\<open>create_wallet()\<close> with \<open>self.network\<close> and \<open>self.wallet_path\<close>.\<close>

definition create_wallet :: "creation_world \<Rightarrow> string \<Rightarrow> string \<Rightarrow> event list \<times> ending" where
  "create_wallet w network wallet_path =
     (case after [WalletCreate network]
             (case created w of
                Raises \<Rightarrow> ([], Raises)
              | Returns wallet \<Rightarrow>
                  (case default_address wallet of
                     None \<Rightarrow> ([], Raises)
                   | Some address \<Rightarrow>
                       after [WriteWalletFile wallet_path (address @ ''.txt'')
                                address network (wallet_id wallet)]
                         (if \<not> write_ok w then ([], Raises)
                          else
                            ([Print [S ''New wallet created successfully!''],
                              Print [S ''Wallet ID: '', S (wallet_id wallet)],
                              Print [S ''Address: '', S address],
                              Print [S ''Network: '', S network],
                              Print [S ''Can Sign: '', B (can_sign wallet)],
                              Print [S ''Server Signer Status: '', S (server_signer_status wallet)],
                              Print [S ''Wallet info saved to: '',
                                     Path wallet_path (address @ ''.txt'')]]
                             @ (if network = ''base-sepolia'' then
                                  Print [S ''Attempting to fund wallet with testnet ETH...'']
                                  # fund_wallet w
                                else []),
                             Returns ())))) of
        (evs, Returns u) \<Rightarrow> (evs, Returned)
      | (evs, Raises) \<Rightarrow>
          (evs @ [Print [S ''Error creating wallet: '', Obj ''str(e)''],
                  Print [Obj ''traceback.format_exc()'']], SysExit 1))"

section \<open>The command line\<close>

subsection \<open>The builtin \<open>float\<close> on a string\<close>

text \<open>
  \<open>float(s)\<close> strips white space, allows single underscores between digits, then reads
  an optional sign followed by \<open>inf\<close>, \<open>infinity\<close> or \<open>nan\<close> in any case, or by a decimal
  number with an optional exponent; on anything else it raises \<open>ValueError\<close> (\<open>None\<close>
  here). The value of a number is kept exact, see \<open>pyfloat\<close>: a literal beyond the range
  of a double is not turned into an infinity or into zero.
\<close>

definition is_space :: "char \<Rightarrow> bool" where
  "is_space c = ((of_char c :: nat) \<in> {9, 10, 11, 12, 13, 32, 133, 160})"

definition is_digit :: "char \<Rightarrow> bool" where
  "is_digit c = (48 \<le> (of_char c :: nat) \<and> (of_char c :: nat) \<le> 57)"

definition strip :: "string \<Rightarrow> string" where
  "strip s = rev (dropWhile is_space (rev (dropWhile is_space s)))"

text \<open>An underscore must follow a digit and be followed by a digit; \<open>prev\<close> is the character before.\<close>

fun underscores_ok :: "char \<Rightarrow> string \<Rightarrow> bool" where
  "underscores_ok prev [] = (prev \<noteq> CHR ''_'')"
| "underscores_ok prev (c # cs) =
     ((if c = CHR ''_'' then is_digit prev
       else if prev = CHR ''_'' then is_digit c else True)
      \<and> underscores_ok c cs)"

definition digits_value :: "string \<Rightarrow> nat" where
  "digits_value ds = foldl (\<lambda>a c. 10 * a + (of_char c - 48)) 0 ds"

definition scale10 :: "rat \<Rightarrow> int \<Rightarrow> rat" where
  "scale10 x e = (if 0 \<le> e then x * 10 ^ nat e else x / 10 ^ nat (- e))"

definition drop_sign :: "string \<Rightarrow> string" where
  "drop_sign s = (case s of [] \<Rightarrow> [] | c # cs \<Rightarrow> if c = CHR ''-'' \<or> c = CHR ''+'' then cs else s)"

definition negative :: "string \<Rightarrow> bool" where
  "negative s = (case s of [] \<Rightarrow> False | c # cs \<Rightarrow> c = CHR ''-'')"

text \<open>A decimal number without sign: digits, an optional point and digits, an optional exponent.\<close>

definition decimal :: "string \<Rightarrow> rat option" where
  "decimal u =
     (let ip = takeWhile is_digit u;
          r1 = dropWhile is_digit u;
          point = (case r1 of [] \<Rightarrow> False | c # cs \<Rightarrow> c = CHR ''.'');
          fp = (if point then takeWhile is_digit (tl r1) else []);
          r2 = (if point then dropWhile is_digit (tl r1) else r1);
          m = of_nat (digits_value (ip @ fp))
      in if ip = [] \<and> fp = [] then None
         else (case r2 of
                 [] \<Rightarrow> Some (scale10 m (- int (length fp)))
               | c # cs \<Rightarrow>
                   if (c = CHR ''e'' \<or> c = CHR ''E'') \<and> drop_sign cs \<noteq> []
                      \<and> list_all is_digit (drop_sign cs)
                   then Some (scale10 m
                          ((if negative cs then - int (digits_value (drop_sign cs))
                            else int (digits_value (drop_sign cs))) - int (length fp)))
                   else None))"

definition py_float :: "string \<Rightarrow> pyfloat option" where
  "py_float s =
     (if \<not> underscores_ok (CHR 0x00) (strip s) then None
      else
        (let t = filter (\<lambda>c. c \<noteq> CHR ''_'') (strip s); u = drop_sign t
         in if lower u = ''inf'' \<or> lower u = ''infinity''
            then Some (if negative t then NegInf else PosInf)
            else if lower u = ''nan'' then Some NaN
            else (case decimal u of
                    None \<Rightarrow> None
                  | Some r \<Rightarrow> Some (Fin (if negative t then - r else r)))))"

subsection \<open>Start-up and dispatch\<close>

text \<open>
  What \<open>WalletManager()\<close> meets: whether \<open>cdp_api_key.json\<close> exists, whether the SDK
  accepts it, whether \<open>.env\<close> exists, whether the template can be written when it does
  not, and whether reading the configuration and making the wallet directory succeed.
\<close>

record startup =
  key_file_exists :: bool
  configure_ok :: bool
  env_file_exists :: bool
  template_written :: bool
  wallet_dir_ok :: bool

text \<open>
  How \<open>main\<close> goes on after its own part: it returns or exits, an exception that nothing
  catches ends the process with a traceback, or one of the four handlers is called and the
  run ends as that call ends.
\<close>

datatype handler =
    CreateWallet | ListWallets | SendTokens string string pyfloat string | ShowBalance string

datatype main_end = Ends ending | Uncaught string | Calls handler

definition print_usage :: "event list" where
  "print_usage = [Print [Obj ''the usage text'']]"

definition load_credentials :: "startup \<Rightarrow> event list \<times> main_end option" where
  "load_credentials su =
     (if \<not> key_file_exists su then
        ([Print [S ''Error: cdp_api_key.json not found''],
          Print [S ''Please ensure your CDP API credentials are in cdp_api_key.json'']],
         Some (Ends (SysExit 1)))
      else if \<not> configure_ok su then
        ([Print [S ''Error configuring CDP SDK: '', Obj ''str(e)''],
          Print [Obj ''traceback.format_exc()'']],
         Some (Ends (SysExit 1)))
      else
        ([Print [S ''CDP SDK has been successfully configured from JSON file.''],
          Print [S ''Server signer has been enabled for transaction signing.'']],
         None))"

definition load_env_config :: "startup \<Rightarrow> event list \<times> main_end option" where
  "load_env_config su =
     (if \<not> env_file_exists su \<and> \<not> template_written su then ([], Some (Uncaught ''OSError''))
      else
        after (if \<not> env_file_exists su then
                 [Print [S ''Warning: .env file not found. A template has been created.''],
                  Print [S ''Using default values for network and storage path.'']]
               else [])
          (if wallet_dir_ok su then ([], None) else ([], Some (Uncaught ''OSError''))))"

text \<open>\<open>WalletManager()\<close>: the credentials first, then the configuration.\<close>

definition wallet_manager :: "startup \<Rightarrow> event list \<times> main_end option" where
  "wallet_manager su =
     (case load_credentials su of
        (evs, Some stop) \<Rightarrow> (evs, Some stop)
      | (evs, None) \<Rightarrow> after evs (load_env_config su))"

text \<open>\<open>main()\<close> on \<open>sys.argv\<close>; \<open>to_float\<close> is the builtin \<open>float\<close>.\<close>

definition main ::
  "(string \<Rightarrow> pyfloat option) \<Rightarrow> startup \<Rightarrow> string list \<Rightarrow> event list \<times> main_end" where
  "main to_float su argv =
     (if length argv < 2 then (print_usage, Ends Returned)
      else
        (case wallet_manager su of
           (evs, Some stop) \<Rightarrow> (evs, stop)
         | (evs, None) \<Rightarrow>
             (let command = lower (argv ! 1)
              in if command = ''create-wallet'' then (evs, Calls CreateWallet)
                 else if command = ''list-wallets'' then (evs, Calls ListWallets)
                 else if command = ''send'' \<and> length argv = 6 then
                   (case to_float (argv ! 4) of
                      None \<Rightarrow> (evs, Uncaught ''ValueError'')
                    | Some quantity \<Rightarrow>
                        (evs, Calls (SendTokens (argv ! 2) (argv ! 3) quantity (argv ! 5))))
                 else if command = ''show-balance'' \<and> length argv = 3 then
                   (evs, Calls (ShowBalance (argv ! 2)))
                 else (evs @ print_usage, Ends Returned))))"

section \<open>Notions used in the statements\<close>

text \<open>A status that the loop takes as pending: it reaches the third test and passes it.\<close>

definition pending_status :: "string \<Rightarrow> bool" where
  "pending_status s \<longleftrightarrow>
     \<not> str_in ''complete'' (lower s) \<and> \<not> str_in ''failed'' (lower s)
     \<and> str_in ''pending'' (lower s)"

text \<open>
  The clock reading at the loop's test number \<open>k\<close> (counted from 0) when the \<open>k\<close> passes
  before it all slept, starting from the reading \<open>t0\<close> at the first test.
\<close>

fun pass_time :: "(nat \<Rightarrow> poll) \<Rightarrow> int \<Rightarrow> nat \<Rightarrow> int" where
  "pass_time ps t0 0 = t0"
| "pass_time ps t0 (Suc k) =
     pass_time ps t0 k + int (reload_time (ps k)) + 2000000 + int (oversleep (ps k))"

text \<open>The events of the first \<open>k\<close> passes when each of them slept.\<close>

definition pending_pass :: "poll \<Rightarrow> event list" where
  "pending_pass p =
     (case status_after p of
        None \<Rightarrow> []
      | Some s \<Rightarrow> [TransferReload, Print [S ''Current status: '', S s], Print [S ''.''], Sleep 2])"

definition pending_events :: "(nat \<Rightarrow> poll) \<Rightarrow> nat \<Rightarrow> event list" where
  "pending_events ps k = concat (map (\<lambda>j. pending_pass (ps j)) [0..<k])"

text \<open>The sixteen spellings of \<open>usdc\<close>: each letter in either case.\<close>

definition usdc_any_case :: "string \<Rightarrow> bool" where
  "usdc_any_case s = list_all2 (\<lambda>c p. c = fst p \<or> c = snd p) s (zip ''usdc'' ''USDC'')"

text \<open>
  An event that is neither a call of \<open>wallet.transfer\<close> nor a line that begins
  \<open>Error: Wallet\<close> followed by a space.
\<close>

definition quiet :: "event \<Rightarrow> bool" where
  "quiet e =
     (case e of
        WalletTransfer q a d g \<Rightarrow> False
      | Print ps \<Rightarrow> (case ps of S p # rest \<Rightarrow> p \<noteq> ''Error: Wallet '' | _ \<Rightarrow> True)
      | _ \<Rightarrow> True)"

text \<open>
  What a run of \<open>send_tokens\<close> needs to get to \<open>wallet.transfer\<close>: the answer \<open>yes\<close> at
  the prompt; a balance that is not below the quantity, as the code compares them; a wallet
  found in the list and reloaded; and a wallet file with a \<open>network\<close> entry.
\<close>

definition confirmed :: "send_world \<Rightarrow> bool" where
  "confirmed w \<longleftrightarrow> (\<exists>c. confirmation w = Returns c \<and> lower c = ''yes'')"

definition covered :: "send_world \<Rightarrow> pyfloat \<Rightarrow> string \<Rightarrow> bool" where
  "covered w quantity asset_id \<longleftrightarrow>
     (\<exists>bs. balances w = Returns bs
        \<and> \<not> float_lt (case map_of bs (lower asset_id) of None \<Rightarrow> Fin 0 | Some b \<Rightarrow> b) quantity)"

definition located :: "send_world \<Rightarrow> string \<Rightarrow> bool" where
  "located w from_address \<longleftrightarrow>
     (\<exists>ws tw. wallets w = Returns ws \<and> find_wallet from_address ws = Returns (Some tw))
     \<and> (\<exists>x. reloaded w = Returns x)"

definition reaches_submission :: "send_world \<Rightarrow> string \<Rightarrow> pyfloat \<Rightarrow> string \<Rightarrow> bool" where
  "reaches_submission w from_address quantity asset_id \<longleftrightarrow>
     (\<exists>n. local_file w = WalletInfo (Some n)) \<and> located w from_address
     \<and> covered w quantity asset_id \<and> confirmed w"

text \<open>
  A list of events that is quiet throughout, except for the one event \<open>sub\<close> in it when
  \<open>c\<close> holds.
\<close>

definition with_submission :: "bool \<Rightarrow> event \<Rightarrow> event list \<Rightarrow> bool" where
  "with_submission c sub evs \<longleftrightarrow>
     (\<exists>pre post. evs = pre @ (if c then sub # post else [])
        \<and> list_all quiet pre \<and> list_all quiet post)"

text \<open>
  The wallet has been saved: \<open>Wallet.create\<close> returned a wallet that has a default
  address, and the wallet file was written.
\<close>

definition wallet_saved :: "creation_world \<Rightarrow> bool" where
  "wallet_saved w =
     (case created w of
        Raises \<Rightarrow> False
      | Returns wallet \<Rightarrow> default_address wallet \<noteq> None \<and> write_ok w)"

text \<open>
  The reading of the local clock at the loop's test number \<open>k\<close> when the \<open>k\<close> passes
  before it all slept; \<open>pass_time\<close> is the case of a clock that is never adjusted.
\<close>

fun local_time :: "(nat \<Rightarrow> int) \<Rightarrow> (nat \<Rightarrow> poll) \<Rightarrow> int \<Rightarrow> nat \<Rightarrow> int" where
  "local_time shift ps t0 0 = t0"
| "local_time shift ps t0 (Suc k) =
     local_time shift ps t0 k + int (reload_time (ps k)) + 2000000 + int (oversleep (ps k))
       + shift k"

text \<open>Pass \<open>j\<close> begins before the deadline and reloads a pending status: it ends in the sleep.\<close>

definition sleeps :: "(nat \<Rightarrow> int) \<Rightarrow> (nat \<Rightarrow> poll) \<Rightarrow> int \<Rightarrow> int \<Rightarrow> nat \<Rightarrow> bool" where
  "sleeps shift ps t0 timeout j \<longleftrightarrow>
     local_time shift ps t0 j < timeout
     \<and> (case status_after (ps j) of None \<Rightarrow> False | Some s \<Rightarrow> pending_status s)"

text \<open>A run after the events \<open>pre\<close>.\<close>

definition preceded ::
  "event list \<Rightarrow> bool outcome \<times> event list \<times> int \<Rightarrow> bool outcome \<times> event list \<times> int" where
  "preceded pre run = (fst run, pre @ fst (snd run), snd (snd run))"

text \<open>
  The closing lines of \<open>_wait_for_transfer\<close>: \<open>Transfer timed out after ...\<close>,
  \<open>Transfer failed!\<close> and \<open>Unexpected status: ...\<close>.
\<close>

definition closing :: "event \<Rightarrow> bool" where
  "closing e =
     (case e of
        Print ps \<Rightarrow>
          (case ps of
             S p # rest \<Rightarrow>
               p = ''Transfer timed out after '' \<or> p = ''Transfer failed!''
               \<or> p = ''Unexpected status: ''
           | _ \<Rightarrow> False)
      | _ \<Rightarrow> False)"

text \<open>
  The deadline comes without a terminal status: the clock is found at or past the deadline
  at a test of the loop condition, every pass before it having slept. And the status
  \<open>st\<close> is seen: a pass begun before the deadline reloads it, every pass before it having
  slept.
\<close>

definition deadline_comes :: "(nat \<Rightarrow> int) \<Rightarrow> (nat \<Rightarrow> poll) \<Rightarrow> int \<Rightarrow> int \<Rightarrow> bool" where
  "deadline_comes shift ps t0 timeout \<longleftrightarrow>
     (\<exists>k. (\<forall>j<k. sleeps shift ps t0 timeout j) \<and> timeout \<le> local_time shift ps t0 k)"

definition status_seen ::
  "(nat \<Rightarrow> int) \<Rightarrow> (nat \<Rightarrow> poll) \<Rightarrow> int \<Rightarrow> int \<Rightarrow> string \<Rightarrow> bool" where
  "status_seen shift ps t0 timeout st \<longleftrightarrow>
     (\<exists>k. (\<forall>j<k. sleeps shift ps t0 timeout j) \<and> local_time shift ps t0 k < timeout
          \<and> status_after (ps k) = Some st)"

section \<open>Example runs\<close>

text \<open>A transfer that is pending at the first reload and \<open>archived\<close> from the second on.\<close>

definition archived_transfer :: transfer where
  "archived_transfer =
     \<lparr>status = ''pending'',
      polls = (\<lambda>i. \<lparr>reload_time = 150000,
                      status_after = Some (if i = 0 then ''pending'' else ''archived''),
                      oversleep = 300\<rparr>),
      transaction_hash = None, transaction_link = None, error = None\<rparr>"

text \<open>A transfer that is \<open>PENDING\<close> at the first two reloads and \<open>COMPLETE\<close> at the third.\<close>

definition settling_transfer :: transfer where
  "settling_transfer =
     \<lparr>status = ''PENDING'',
      polls = (\<lambda>i. \<lparr>reload_time = 150000,
                      status_after = Some (if i < 2 then ''PENDING'' else ''COMPLETE''),
                      oversleep = 300\<rparr>),
      transaction_hash = Some ''0xabc'', transaction_link = None, error = None\<rparr>"


text \<open>A pending transfer whose reload takes ten minutes.\<close>

definition slow_transfer :: transfer where
  "slow_transfer =
     \<lparr>status = ''pending'',
      polls = (\<lambda>i. \<lparr>reload_time = 600000000, status_after = Some ''pending'', oversleep = 0\<rparr>),
      transaction_hash = None, transaction_link = None, error = None\<rparr>"

text \<open>A transfer that has failed at the first reload.\<close>

definition failed_transfer :: transfer where
  "failed_transfer =
     \<lparr>status = ''pending'',
      polls = (\<lambda>i. \<lparr>reload_time = 150000, status_after = Some ''failed'', oversleep = 0\<rparr>),
      transaction_hash = None, transaction_link = None, error = Some ''reverted''\<rparr>"

text \<open>A transfer whose status reads \<open>st\<close> at every reload.\<close>

definition two_keywords_transfer :: "string \<Rightarrow> transfer" where
  "two_keywords_transfer st =
     \<lparr>status = ''pending'',
      polls = (\<lambda>i. \<lparr>reload_time = 150000, status_after = Some st, oversleep = 0\<rparr>),
      transaction_hash = None, transaction_link = None, error = None\<rparr>"

text \<open>A newly created wallet, and a run of \<open>create_wallet\<close> in which the faucet call raises.\<close>

definition fresh_wallet :: wallet where
  "fresh_wallet =
     \<lparr>wallet_id = ''w-1'', default_address = Some ''0xA11CE'', can_sign = True,
      server_signer_status = ''active_seed''\<rparr>"

definition dry_faucet :: creation_world where
  "dry_faucet =
     \<lparr>created = Returns fresh_wallet, write_ok = True, faucet_result = Raises,
      faucet_wait = Raises, initial_balances = Raises\<rparr>"

text \<open>A start-up in which everything is in place, and one without \<open>cdp_api_key.json\<close>.\<close>

definition good_startup :: startup where
  "good_startup =
     \<lparr>key_file_exists = True, configure_ok = True, env_file_exists = True,
      template_written = True, wallet_dir_ok = True\<rparr>"

definition no_key_file :: startup where
  "no_key_file = good_startup\<lparr>key_file_exists := False\<rparr>"

text \<open>
  A run of \<open>send_tokens\<close> in which everything succeeds and the user confirms, and one in
  which the wallet file is missing and the remote service lists no wallet.
\<close>

definition ready_world :: send_world where
  "ready_world =
     \<lparr>local_file = WalletInfo (Some ''base-sepolia''),
      wallets = Returns [fresh_wallet],
      reloaded = Returns fresh_wallet,
      balances = Returns [(''eth'', Fin (1 / 2)), (''usdc'', Fin 25)],
      confirmation = Returns ''yes'',
      created_transfer = Returns settling_transfer,
      wait_start = 0, wait_delay = 0,
      reloaded_again = Returns (),
      balances_again = Returns [(''eth'', Fin (1 / 4)), (''usdc'', Fin 25)]\<rparr>"

definition no_file_world :: send_world where
  "no_file_world = ready_world\<lparr>local_file := FileNotFound, wallets := Returns []\<rparr>"



section \<open>The polling loop, pass by pass\<close>

lemma wait_loop_deadline:
  "\<not> now < timeout \<Longrightarrow>
   wait_loop ps m timeout i now =
     (Returns False, [Print [S ''Transfer timed out after '', I m, S '' minutes!'']], now)"
  by (subst wait_loop.simps) simp

lemma wait_loop_raises:
  "now < timeout \<Longrightarrow> status_after (ps i) = None \<Longrightarrow>
   wait_loop ps m timeout i now = (Raises, [TransferReload], now + int (reload_time (ps i)))"
  by (subst wait_loop.simps) simp

lemma wait_loop_complete:
  "now < timeout \<Longrightarrow> status_after (ps i) = Some st \<Longrightarrow> str_in ''complete'' (lower st) \<Longrightarrow>
   wait_loop ps m timeout i now =
     (Returns True,
      [TransferReload, Print [S ''Current status: '', S st], Print [S ''Transfer completed!'']],
      now + int (reload_time (ps i)))"
  by (subst wait_loop.simps) simp

lemma wait_loop_failed:
  "now < timeout \<Longrightarrow> status_after (ps i) = Some st \<Longrightarrow> \<not> str_in ''complete'' (lower st) \<Longrightarrow>
   str_in ''failed'' (lower st) \<Longrightarrow>
   wait_loop ps m timeout i now =
     (Returns False,
      [TransferReload, Print [S ''Current status: '', S st], Print [S ''Transfer failed!'']],
      now + int (reload_time (ps i)))"
  by (subst wait_loop.simps) simp

lemma wait_loop_pending:
  "now < timeout \<Longrightarrow> status_after (ps i) = Some st \<Longrightarrow> pending_status st \<Longrightarrow>
   wait_loop ps m timeout i now =
     (case wait_loop ps m timeout (Suc i)
             (now + int (reload_time (ps i)) + 2000000 + int (oversleep (ps i))) of
        (r, evs, fin) \<Rightarrow>
          (r, [TransferReload, Print [S ''Current status: '', S st], Print [S ''.''], Sleep 2]
              @ evs, fin))"
  by (subst wait_loop.simps) (simp add: pending_status_def)

lemma wait_loop_unexpected:
  "now < timeout \<Longrightarrow> status_after (ps i) = Some st \<Longrightarrow> \<not> str_in ''complete'' (lower st) \<Longrightarrow>
   \<not> str_in ''failed'' (lower st) \<Longrightarrow> \<not> str_in ''pending'' (lower st) \<Longrightarrow>
   wait_loop ps m timeout i now =
     (Returns False,
      [TransferReload, Print [S ''Current status: '', S st],
       Print [S ''Unexpected status: '', S st]],
      now + int (reload_time (ps i)))"
  by (subst wait_loop.simps) simp

lemma reloads_simps [simp]:
  "reloads [] = 0"
  "reloads (e # evs) = (if e = TransferReload then Suc (reloads evs) else reloads evs)"
  "reloads (xs @ ys) = reloads xs + reloads ys"
  by (simp_all add: reloads_def)

lemma reloads_transfer_details [simp]: "reloads (transfer_details tr) = 0"
  by (simp add: transfer_details_def)

lemma pass_time_mono: "pass_time ps t0 j \<le> pass_time ps t0 (j + d)"
proof (induction d)
  case 0
  show ?case by simp
next
  case (Suc d)
  then show ?case by simp
qed

lemma pending_events_Suc:
  "pending_events ps (Suc k) = pending_events ps k @ pending_pass (ps k)"
  by (simp add: pending_events_def)

lemma pending_events_0 [simp]: "pending_events ps 0 = []"
  by (simp add: pending_events_def)

lemma reloads_pending_events:
  "\<forall>j<k. \<exists>s. status_after (ps j) = Some s \<Longrightarrow> reloads (pending_events ps k) = k"
proof (induction k)
  case 0
  show ?case by simp
next
  case (Suc k)
  then obtain s where "status_after (ps k) = Some s" by blast
  with Suc show ?case
    by (simp add: pending_events_Suc pending_pass_def)
qed

text \<open>While the statuses are pending and the deadline has not come, the loop goes on.\<close>

lemma wait_loop_reaches:
  assumes "\<forall>j<k. (\<exists>s. status_after (ps j) = Some s \<and> pending_status s)
                  \<and> pass_time ps t0 j < timeout"
  shows "wait_loop ps m timeout 0 t0 =
           (case wait_loop ps m timeout k (pass_time ps t0 k) of
              (r, evs, fin) \<Rightarrow> (r, pending_events ps k @ evs, fin))"
  using assms
proof (induction k)
  case 0
  show ?case by (simp split: prod.splits)
next
  case (Suc k)
  from Suc.prems obtain s where s: "status_after (ps k) = Some s" "pending_status s"
    and before: "pass_time ps t0 k < timeout"
    by blast
  have "wait_loop ps m timeout 0 t0 =
          (case wait_loop ps m timeout k (pass_time ps t0 k) of
             (r, evs, fin) \<Rightarrow> (r, pending_events ps k @ evs, fin))"
    using Suc.IH Suc.prems by simp
  also have "wait_loop ps m timeout k (pass_time ps t0 k) =
          (case wait_loop ps m timeout (Suc k) (pass_time ps t0 (Suc k)) of
             (r, evs, fin) \<Rightarrow>
               (r, [TransferReload, Print [S ''Current status: '', S s], Print [S ''.''], Sleep 2]
                   @ evs, fin))"
    using wait_loop_pending [where ps = ps and i = k, OF before s] by simp
  finally show ?case
    by (simp add: pending_events_Suc pending_pass_def s split: prod.splits)
qed

lemma wait_for_transfer_reaches:
  assumes "\<forall>j<k. \<exists>s. status_after (polls tr j) = Some s \<and> pending_status s"
    and "pass_time (polls tr) (start_time + int delay) k < start_time + m * 60000000"
  shows "wait_for_transfer tr m start_time delay =
           (case wait_loop (polls tr) m (start_time + m * 60000000) k
                   (pass_time (polls tr) (start_time + int delay) k) of
              (r, evs, fin) \<Rightarrow> (r, transfer_details tr @ pending_events (polls tr) k @ evs, fin))"
proof -
  have "pass_time (polls tr) (start_time + int delay) j < start_time + m * 60000000"
    if "j < k" for j
    using pass_time_mono [of "polls tr" "start_time + int delay" j "k - j"] assms(2) that
    by simp
  with assms(1)
  have "\<forall>j<k. (\<exists>s. status_after (polls tr j) = Some s \<and> pending_status s)
          \<and> pass_time (polls tr) (start_time + int delay) j < start_time + m * 60000000"
    by blast
  from wait_loop_reaches [OF this] show ?thesis
    unfolding wait_for_transfer_def by (simp split: prod.splits)
qed

lemma pending_is_pending: "pending_status ''pending''"
  by code_simp

lemma archived_is_unexpected:
  "\<not> str_in ''complete'' (lower ''archived'')" "\<not> str_in ''failed'' (lower ''archived'')"
  "\<not> str_in ''pending'' (lower ''archived'')"
  by code_simp+

lemma upper_pending_is_pending: "pending_status ''PENDING''"
  by code_simp

lemma failed_is_failed:
  "\<not> str_in ''complete'' (lower ''failed'')" "str_in ''failed'' (lower ''failed'')"
  by code_simp+

lemma slow_run:
  "wait_for_transfer slow_transfer 10 0 0 =
     (Returns False,
      transfer_details slow_transfer
        @ [TransferReload, Print [S ''Current status: '', S ''pending''], Print [S ''.''], Sleep 2,
           Print [S ''Transfer timed out after '', I 10, S '' minutes!'']],
      602000000)"
proof -
  have "wait_loop (polls slow_transfer) 10 600000000 0 0 =
          (case wait_loop (polls slow_transfer) 10 600000000 (Suc 0) 602000000 of
             (r, evs, fin) \<Rightarrow>
               (r, [TransferReload, Print [S ''Current status: '', S ''pending''], Print [S ''.''],
                    Sleep 2] @ evs, fin))"
    using wait_loop_pending [where ps = "polls slow_transfer" and i = 0 and now = 0
        and timeout = 600000000 and st = "''pending''" and m = 10]
    by (simp add: slow_transfer_def pending_is_pending)
  then show ?thesis
    by (simp add: wait_for_transfer_def wait_loop_deadline)
qed

lemma failed_run:
  "wait_for_transfer failed_transfer 10 0 0 =
     (Returns False,
      transfer_details failed_transfer
        @ [TransferReload, Print [S ''Current status: '', S ''failed''],
           Print [S ''Transfer failed!'']],
      150000)"
  using wait_loop_failed [where ps = "polls failed_transfer" and i = 0 and now = 0
      and timeout = 600000000 and st = "''failed''" and m = 10]
  by (simp add: wait_for_transfer_def failed_transfer_def failed_is_failed)

section \<open>The polling loop under the local clock\<close>

lemma preceded_simps [simp]:
  "preceded pre (r, evs, fin) = (r, pre @ evs, fin)"
  "preceded [] run = run"
  "preceded pre (preceded pre' run) = preceded (pre @ pre') run"
  by (simp_all add: preceded_def)

lemma sleeps_iff:
  "sleeps shift ps t0 timeout j \<longleftrightarrow>
     local_time shift ps t0 j < timeout
     \<and> (\<exists>s. status_after (ps j) = Some s \<and> pending_status s)"
  by (cases "status_after (ps j)") (simp_all add: sleeps_def)

lemma bind_preceded:
  "Option.bind x (\<lambda>(r, evs, fin). Some (r, pre @ evs, fin)) = map_option (preceded pre) x"
  "Option.bind x (\<lambda>(r, evs, fin). Some (r, a # b # c # d # evs, fin))
     = map_option (preceded [a, b, c, d]) x"
  by (cases x; auto)+

lemma local_clock_deadline:
  "\<not> now < timeout \<Longrightarrow>
   wait_loop_local_clock shift ps m timeout i now =
     Some (Returns False, [Print [S ''Transfer timed out after '', I m, S '' minutes!'']], now)"
  by (subst wait_loop_local_clock.simps) simp

lemma local_clock_raises:
  "now < timeout \<Longrightarrow> status_after (ps i) = None \<Longrightarrow>
   wait_loop_local_clock shift ps m timeout i now =
     Some (Raises, [TransferReload], now + int (reload_time (ps i)))"
  by (subst wait_loop_local_clock.simps) simp

lemma local_clock_complete:
  "now < timeout \<Longrightarrow> status_after (ps i) = Some st \<Longrightarrow> str_in ''complete'' (lower st) \<Longrightarrow>
   wait_loop_local_clock shift ps m timeout i now =
     Some (Returns True,
           [TransferReload, Print [S ''Current status: '', S st],
            Print [S ''Transfer completed!'']],
           now + int (reload_time (ps i)))"
  by (subst wait_loop_local_clock.simps) simp

lemma local_clock_failed:
  "now < timeout \<Longrightarrow> status_after (ps i) = Some st \<Longrightarrow> \<not> str_in ''complete'' (lower st) \<Longrightarrow>
   str_in ''failed'' (lower st) \<Longrightarrow>
   wait_loop_local_clock shift ps m timeout i now =
     Some (Returns False,
           [TransferReload, Print [S ''Current status: '', S st], Print [S ''Transfer failed!'']],
           now + int (reload_time (ps i)))"
  by (subst wait_loop_local_clock.simps) simp

lemma local_clock_unexpected:
  "now < timeout \<Longrightarrow> status_after (ps i) = Some st \<Longrightarrow> \<not> str_in ''complete'' (lower st) \<Longrightarrow>
   \<not> str_in ''failed'' (lower st) \<Longrightarrow> \<not> str_in ''pending'' (lower st) \<Longrightarrow>
   wait_loop_local_clock shift ps m timeout i now =
     Some (Returns False,
           [TransferReload, Print [S ''Current status: '', S st],
            Print [S ''Unexpected status: '', S st]],
           now + int (reload_time (ps i)))"
  by (subst wait_loop_local_clock.simps) simp

lemma local_clock_pending:
  "now < timeout \<Longrightarrow> status_after (ps i) = Some st \<Longrightarrow> pending_status st \<Longrightarrow>
   wait_loop_local_clock shift ps m timeout i now =
     map_option (preceded (pending_pass (ps i)))
       (wait_loop_local_clock shift ps m timeout (Suc i)
          (now + int (reload_time (ps i)) + 2000000 + int (oversleep (ps i)) + shift i))"
  by (subst wait_loop_local_clock.simps)
    (simp add: pending_status_def pending_pass_def bind_preceded)

lemma local_clock_sleeps:
  assumes "sleeps shift ps t0 timeout j"
  shows "wait_loop_local_clock shift ps m timeout j (local_time shift ps t0 j) =
           map_option (preceded (pending_pass (ps j)))
             (wait_loop_local_clock shift ps m timeout (Suc j) (local_time shift ps t0 (Suc j)))"
proof -
  from assms obtain st where "status_after (ps j) = Some st" "pending_status st"
    and "local_time shift ps t0 j < timeout"
    by (auto simp: sleeps_def split: option.splits)
  from local_clock_pending [where ps = ps and i = j, OF this(3) this(1) this(2)]
  show ?thesis by simp
qed

lemma local_clock_reaches:
  assumes "\<forall>j<k. sleeps shift ps t0 timeout j"
  shows "wait_loop_local_clock shift ps m timeout 0 t0 =
           map_option (preceded (pending_events ps k))
             (wait_loop_local_clock shift ps m timeout k (local_time shift ps t0 k))"
  using assms
proof (induction k)
  case 0
  show ?case by (simp add: option.map_ident preceded_def [abs_def])
next
  case (Suc k)
  then have "wait_loop_local_clock shift ps m timeout 0 t0 =
           map_option (preceded (pending_events ps k))
             (wait_loop_local_clock shift ps m timeout k (local_time shift ps t0 k))"
    by simp
  also have "wait_loop_local_clock shift ps m timeout k (local_time shift ps t0 k) =
           map_option (preceded (pending_pass (ps k)))
             (wait_loop_local_clock shift ps m timeout (Suc k) (local_time shift ps t0 (Suc k)))"
    using Suc.prems by (intro local_clock_sleeps) simp
  finally show ?case
    by (simp add: option.map_comp comp_def pending_events_Suc)
qed

text \<open>A run that returns has a first pass that does not sleep.\<close>

lemma local_clock_stops_from:
  assumes "wait_loop_local_clock shift ps m timeout i now = Some res"
  shows "\<forall>t0. now = local_time shift ps t0 i \<longrightarrow>
           (\<exists>k. (\<forall>j<k. i \<le> j \<longrightarrow> sleeps shift ps t0 timeout j) \<and> i \<le> k
                \<and> \<not> sleeps shift ps t0 timeout k)"
proof (rule wait_loop_local_clock.raw_induct
    [where P = "\<lambda>shift ps m timeout i now res.
        \<forall>t0. now = local_time shift ps t0 i \<longrightarrow>
           (\<exists>k. (\<forall>j<k. i \<le> j \<longrightarrow> sleeps shift ps t0 timeout j) \<and> i \<le> k
                \<and> \<not> sleeps shift ps t0 timeout k)", OF _ assms],
    goal_cases)
  case (1 loop shift ps m timeout i now res)
  show ?case
  proof (intro allI impI)
    fix t0
    assume now: "now = local_time shift ps t0 i"
    show "\<exists>k. (\<forall>j<k. i \<le> j \<longrightarrow> sleeps shift ps t0 timeout j) \<and> i \<le> k
              \<and> \<not> sleeps shift ps t0 timeout k"
    proof (cases "sleeps shift ps t0 timeout i")
      case False
      then show ?thesis
        by (intro exI [of _ i]) simp
    next
      case True
      then obtain st where st: "status_after (ps i) = Some st" "pending_status st"
        and before: "now < timeout"
        using now by (auto simp: sleeps_def split: option.splits)
      from "1"(2) st before
      have "Option.bind
              (loop shift ps m timeout (i + 1)
                 (now + int (reload_time (ps i)) + 2000000 + int (oversleep (ps i)) + shift i))
              (\<lambda>(r, evs, fin).
                 Some (r, [TransferReload, Print [S ''Current status: '', S st],
                           Print [S ''.''], Sleep 2] @ evs, fin))
            = Some res"
        by (simp add: pending_status_def)
      then obtain res' where
        "loop shift ps m timeout (i + 1)
           (now + int (reload_time (ps i)) + 2000000 + int (oversleep (ps i)) + shift i)
         = Some res'"
        by (cases "loop shift ps m timeout (i + 1)
           (now + int (reload_time (ps i)) + 2000000 + int (oversleep (ps i)) + shift i)")
          simp_all
      from "1"(1) [OF this] now
      obtain k where k: "\<forall>j<k. Suc i \<le> j \<longrightarrow> sleeps shift ps t0 timeout j" "Suc i \<le> k"
        "\<not> sleeps shift ps t0 timeout k"
        by auto
      have "\<forall>j<k. i \<le> j \<longrightarrow> sleeps shift ps t0 timeout j"
      proof (intro allI impI)
        fix j assume "j < k" "i \<le> j"
        then show "sleeps shift ps t0 timeout j"
          using k(1) True by (cases "j = i") auto
      qed
      with k show ?thesis
        by (intro exI [of _ k]) simp
    qed
  qed
qed

lemma local_clock_stops:
  assumes "wait_loop_local_clock shift ps m timeout 0 t0 = Some res"
  shows "\<exists>k. (\<forall>j<k. sleeps shift ps t0 timeout j) \<and> \<not> sleeps shift ps t0 timeout k"
  using local_clock_stops_from [OF assms] by auto


text \<open>Under a clock that is never adjusted the loop is \<open>wait_loop\<close>.\<close>

lemma local_time_steady [simp]: "local_time (\<lambda>j. 0) ps t0 k = pass_time ps t0 k"
  by (induction k) simp_all

lemma steady_wait_loop:
  "wait_loop_local_clock (\<lambda>j. 0) ps m timeout i now = Some (wait_loop ps m timeout i now)"
proof (induction ps m timeout i now rule: wait_loop.induct)
  case (1 ps m timeout i now)
  show ?case
  proof (cases "now < timeout")
    case False
    then show ?thesis by (simp add: wait_loop_deadline local_clock_deadline)
  next
    case True
    show ?thesis
    proof (cases "status_after (ps i)")
      case None
      with True show ?thesis by (simp add: wait_loop_raises local_clock_raises)
    next
      case (Some st)
      consider (c) "str_in ''complete'' (lower st)"
        | (f) "\<not> str_in ''complete'' (lower st)" "str_in ''failed'' (lower st)"
        | (p) "pending_status st"
        | (u) "\<not> str_in ''complete'' (lower st)" "\<not> str_in ''failed'' (lower st)"
              "\<not> str_in ''pending'' (lower st)"
        unfolding pending_status_def by blast
      then show ?thesis
      proof cases
        case c
        with True Some show ?thesis by (simp add: wait_loop_complete local_clock_complete)
      next
        case f
        with True Some show ?thesis by (simp add: wait_loop_failed local_clock_failed)
      next
        case u
        with True Some show ?thesis by (simp add: wait_loop_unexpected local_clock_unexpected)
      next
        case p
        from p have cls: "\<not> str_in ''complete'' (lower st)" "\<not> str_in ''failed'' (lower st)"
          "str_in ''pending'' (lower st)"
          by (simp_all add: pending_status_def)
        note ih = "1.IH" [OF True Some cls]
        show ?thesis
          using True Some p ih
          by (simp add: wait_loop_pending [where ps = ps and i = i]
              local_clock_pending [where ps = ps and i = i] pending_pass_def
              split: prod.splits)
      qed
    qed
  qed
qed

lemma steady_wait_for_transfer:
  "wait_for_transfer_local_clock (\<lambda>j. 0) tr m start_time (int delay) =
     (if is_datetime (start_time + m * 60000000)
      then Some (wait_for_transfer tr m start_time delay)
      else Some (Raises, [], start_time))"
  by (simp add: wait_for_transfer_local_clock_def wait_for_transfer_def steady_wait_loop
      split: prod.splits)


lemma first_stop_unique:
  assumes "\<forall>j<k. P j" "\<not> P k" "\<forall>j<k'. P j" "\<not> P k'"
  shows "k = (k'::nat)"
  using assms by (cases k k' rule: linorder_cases) auto

text \<open>A run that returns: the passes that slept, and the pass or the test that ended it.\<close>

lemma local_clock_returns:
  assumes "wait_loop_local_clock shift ps m timeout 0 t0 = Some (r, evs, fin)"
  obtains k r' evs' where "\<forall>j<k. sleeps shift ps t0 timeout j"
    and "\<not> sleeps shift ps t0 timeout k"
    and "wait_loop_local_clock shift ps m timeout k (local_time shift ps t0 k)
           = Some (r, evs', fin)"
    and "evs = pending_events ps k @ evs'"
proof -
  from local_clock_stops [OF assms] obtain k where k: "\<forall>j<k. sleeps shift ps t0 timeout j"
    "\<not> sleeps shift ps t0 timeout k"
    by blast
  from local_clock_reaches [OF k(1), of m] assms
  obtain res where res: "wait_loop_local_clock shift ps m timeout k (local_time shift ps t0 k)
      = Some res" and "(r, evs, fin) = preceded (pending_events ps k) res"
    by (cases "wait_loop_local_clock shift ps m timeout k (local_time shift ps t0 k)") simp_all
  then have "wait_loop_local_clock shift ps m timeout k (local_time shift ps t0 k)
      = Some (r, fst (snd res), fin)" "evs = pending_events ps k @ fst (snd res)"
    by (simp_all add: preceded_def)
  with k that show thesis by blast
qed

section \<open>Facts about events\<close>

lemma balance_lines_are_prints: "e \<in> set (balance_lines bs) \<Longrightarrow> \<exists>ps. e = Print ps"
  by (auto simp: balance_lines_def)

section \<open>Lower case\<close>

text \<open>Which characters \<open>lower\<close> sends to a given small letter.\<close>

lemma lower_char_char_of:
  assumes "k < 256"
  shows "lower_char (char_of k) =
     (if (65 \<le> k \<and> k \<le> 90) \<or> (192 \<le> k \<and> k \<le> 222 \<and> k \<noteq> 215)
      then char_of (k + 32) else char_of (k :: nat))"
  using assms by (simp add: lower_char_def)

lemma lower_char_eq_lower_letter:
  assumes "97 \<le> n" and "n \<le> 122"
  shows "lower_char c = char_of (n :: nat) \<longleftrightarrow> c = char_of n \<or> c = char_of (n - 32)"
proof -
  define k :: nat where "k = of_char c"
  have c: "c = char_of k"
    by (simp add: k_def)
  have k: "k < 256"
    by (simp add: k_def)
  show ?thesis
  proof (cases "(65 \<le> k \<and> k \<le> 90) \<or> (192 \<le> k \<and> k \<le> 222 \<and> k \<noteq> 215)")
    case True
    then have small: "k + 32 < 256"
      by arith
    from True have "lower_char c = char_of (k + 32)"
      unfolding c by (simp add: lower_char_char_of [OF k])
    moreover have "char_of (k + 32) = char_of n \<longleftrightarrow> k + 32 = n"
      using small assms by simp
    moreover have "char_of k = char_of n \<longleftrightarrow> k = n"
      using k assms by simp
    moreover have "char_of k = char_of (n - 32) \<longleftrightarrow> k = n - 32"
      using k assms by simp
    ultimately show ?thesis
      unfolding c using True assms by arith
  next
    case False
    then have "lower_char c = char_of k"
      unfolding c by (simp add: lower_char_char_of [OF k])
    moreover have "char_of k = char_of n \<longleftrightarrow> k = n"
      using k assms by simp
    moreover have "char_of k = char_of (n - 32) \<longleftrightarrow> k = n - 32"
      using k assms by simp
    ultimately show ?thesis
      unfolding c using False assms by arith
  qed
qed

lemma letters: "CHR ''u'' = char_of (117::nat)" "CHR ''U'' = char_of (117 - 32 ::nat)"
  "CHR ''s'' = char_of (115::nat)" "CHR ''S'' = char_of (115 - 32 ::nat)"
  "CHR ''d'' = char_of (100::nat)" "CHR ''D'' = char_of (100 - 32 ::nat)"
  "CHR ''c'' = char_of (99::nat)" "CHR ''C'' = char_of (99 - 32 ::nat)"
  by code_simp+

lemma lower_char_usdc:
  "lower_char c = CHR ''u'' \<longleftrightarrow> c = CHR ''u'' \<or> c = CHR ''U''"
  "lower_char c = CHR ''s'' \<longleftrightarrow> c = CHR ''s'' \<or> c = CHR ''S''"
  "lower_char c = CHR ''d'' \<longleftrightarrow> c = CHR ''d'' \<or> c = CHR ''D''"
  "lower_char c = CHR ''c'' \<longleftrightarrow> c = CHR ''c'' \<or> c = CHR ''C''"
  unfolding letters by (rule lower_char_eq_lower_letter; simp)+

lemma map_eq_iff_list_all2: "map f xs = ys \<longleftrightarrow> list_all2 (\<lambda>x y. f x = y) xs ys"
  by (induction xs arbitrary: ys) (auto simp: list_all2_Cons1)

text \<open>Lowering gives \<open>usdc\<close> exactly for the sixteen spellings.\<close>

lemma lower_is_usdc: "lower s = ''usdc'' \<longleftrightarrow> usdc_any_case s"
  unfolding lower_def map_eq_iff_list_all2 usdc_any_case_def
  by (simp add: list_all2_Cons2 lower_char_usdc)

section \<open>The events of the polling loop\<close>

lemma wait_loop_events:
  "e \<in> set (fst (snd (wait_loop ps m timeout i now))) \<Longrightarrow>
   e = TransferReload \<or> e = Sleep 2 \<or> e = Print [S ''.'']
   \<or> e = Print [S ''Transfer completed!''] \<or> e = Print [S ''Transfer failed!'']
   \<or> e = Print [S ''Transfer timed out after '', I m, S '' minutes!'']
   \<or> (\<exists>s. e = Print [S ''Current status: '', S s])
   \<or> (\<exists>s. e = Print [S ''Unexpected status: '', S s])"
proof (induction ps m timeout i now rule: wait_loop.induct)
  case (1 ps m timeout i now)
  show ?case
  proof (cases "now < timeout")
    case False
    with "1.prems" show ?thesis by (simp add: wait_loop_deadline)
  next
    case True
    show ?thesis
    proof (cases "status_after (ps i)")
      case None
      with True "1.prems" show ?thesis by (simp add: wait_loop_raises)
    next
      case (Some st)
      consider (c) "str_in ''complete'' (lower st)"
        | (f) "\<not> str_in ''complete'' (lower st)" "str_in ''failed'' (lower st)"
        | (p) "pending_status st"
        | (u) "\<not> str_in ''complete'' (lower st)" "\<not> str_in ''failed'' (lower st)"
              "\<not> str_in ''pending'' (lower st)"
        unfolding pending_status_def by blast
      then show ?thesis
      proof cases
        case c
        from "1.prems" show ?thesis
          unfolding wait_loop_complete [where ps = ps and i = i, OF True Some c] by fastforce
      next
        case f
        from "1.prems" show ?thesis
          unfolding wait_loop_failed [where ps = ps and i = i, OF True Some f] by fastforce
      next
        case u
        from "1.prems" show ?thesis
          unfolding wait_loop_unexpected [where ps = ps and i = i, OF True Some u] by fastforce
      next
        case p
        from p have cls: "\<not> str_in ''complete'' (lower st)" "\<not> str_in ''failed'' (lower st)"
          "str_in ''pending'' (lower st)"
          by (simp_all add: pending_status_def)
        note ih = "1.IH" [OF True Some cls]
        obtain r evs fin where rest:
          "wait_loop ps m timeout (i + 1)
             (now + int (reload_time (ps i)) + 2000000 + int (oversleep (ps i))) = (r, evs, fin)"
          by (cases "wait_loop ps m timeout (i + 1)
             (now + int (reload_time (ps i)) + 2000000 + int (oversleep (ps i)))") simp
        from "1.prems" have "e \<in> set [TransferReload, Print [S ''Current status: '', S st],
              Print [S ''.''], Sleep 2] \<or> e \<in> set evs"
          unfolding wait_loop_pending [where ps = ps and i = i, OF True Some p]
          using rest by simp
        then show ?thesis
        proof
          assume "e \<in> set [TransferReload, Print [S ''Current status: '', S st],
              Print [S ''.''], Sleep 2]"
          then show ?thesis by fastforce
        next
          assume "e \<in> set evs"
          then show ?thesis using ih rest by simp
        qed
      qed
    qed
  qed
qed

lemma wait_for_transfer_events:
  assumes "e \<in> set (fst (snd (wait_for_transfer tr m start_time delay)))"
  shows "e = TransferReload \<or> e = Sleep 2
         \<or> (\<exists>p ps. e = Print (S p # ps) \<and> p \<noteq> ''Error: Wallet '')"
proof -
  obtain r evs fin where loop:
    "wait_loop (polls tr) m (start_time + m * 60000000) 0 (start_time + int delay) = (r, evs, fin)"
    by (cases "wait_loop (polls tr) m (start_time + m * 60000000) 0 (start_time + int delay)")
      simp
  from assms have "e \<in> set (transfer_details tr) \<or> e \<in> set evs"
    unfolding wait_for_transfer_def loop by simp
  then show ?thesis
  proof
    assume "e \<in> set (transfer_details tr)"
    then show ?thesis
      unfolding transfer_details_def by (simp only: set_simps insert_iff empty_iff) (elim disjE; simp)
  next
    assume "e \<in> set evs"
    then have "e \<in> set (fst (snd (wait_loop (polls tr) m (start_time + m * 60000000) 0
                                     (start_time + int delay))))"
      by (simp add: loop)
    from wait_loop_events [OF this] show ?thesis
      by (elim disjE exE; simp)
  qed
qed

section \<open>The events of \<open>send_tokens\<close>\<close>

lemma fst_after [simp]: "fst (after evs r) = evs @ fst r"
  and snd_after [simp]: "snd (after evs r) = snd r"
  by (simp_all add: after_def)

lemma quiet_simps [simp]:
  "quiet TransferReload" "quiet (Sleep n)" "quiet (OpenWalletFile d f)" "quiet WalletList"
  "quiet WalletReload" "quiet WalletBalances" "quiet AskConfirmation"
  "\<not> quiet (WalletTransfer q a d g)"
  "quiet (Print (S p # rest)) \<longleftrightarrow> p \<noteq> ''Error: Wallet ''"
  "quiet (Print (Upper u # rest))" "quiet (Print (Obj t # rest))"
  by (simp_all add: quiet_def)

lemma quiet_set:
  assumes "list_all quiet evs"
  shows "WalletTransfer q a d g \<notin> set evs" and "Print (S ''Error: Wallet '' # rest) \<notin> set evs"
proof -
  have "quiet e" if "e \<in> set evs" for e
    using assms that by (simp add: list_all_iff)
  from this [of "WalletTransfer q a d g"] show "WalletTransfer q a d g \<notin> set evs"
    by (cases "WalletTransfer q a d g \<in> set evs") simp_all
  from \<open>\<And>e. e \<in> set evs \<Longrightarrow> quiet e\<close> [of "Print (S ''Error: Wallet '' # rest)"]
  show "Print (S ''Error: Wallet '' # rest) \<notin> set evs"
    by (cases "Print (S ''Error: Wallet '' # rest) \<in> set evs") simp_all
qed

lemma quiet_balance_lines [simp]: "list_all quiet (balance_lines bs)"
  by (induction bs) (simp_all add: balance_lines_def split: prod.splits)

lemma quiet_wait_for_transfer: "list_all quiet (fst (snd (wait_for_transfer tr m start_time delay)))"
proof -
  have "quiet e" if "e \<in> set (fst (snd (wait_for_transfer tr m start_time delay)))" for e
    using wait_for_transfer_events [OF that] by (elim disjE exE conjE; simp)
  then show ?thesis
    by (simp add: list_all_iff)
qed

lemma quiet_report_transfer: "list_all quiet (fst (report_transfer w tr))"
proof -
  obtain r evs fin where run: "wait_for_transfer tr 10 (wait_start w) (wait_delay w) = (r, evs, fin)"
    by (cases "wait_for_transfer tr 10 (wait_start w) (wait_delay w)") simp
  have evs: "list_all quiet evs"
    using quiet_wait_for_transfer [of tr 10 "wait_start w" "wait_delay w"] by (simp add: run)
  show ?thesis
  proof (cases r)
    case Raises
    then show ?thesis by (simp add: report_transfer_def run evs)
  next
    case (Returns b)
    then show ?thesis
      by (cases b)
        (simp_all add: report_transfer_def run evs split: option.splits outcome.splits)
  qed
qed

text \<open>
  Stretch by stretch: the events are quiet, but for the call of \<open>wallet.transfer\<close> where
  the run gets that far.
\<close>

lemma with_submissionI:
  "evs = pre @ (if c then sub # post else []) \<Longrightarrow> list_all quiet pre \<Longrightarrow> list_all quiet post
   \<Longrightarrow> with_submission c sub evs"
  unfolding with_submission_def by (intro exI [of _ pre] exI [of _ post]) simp

lemma with_submission_quiet: "list_all quiet evs \<Longrightarrow> with_submission False sub evs"
  by (rule with_submissionI [of _ evs _ _ "[]"]) simp_all

lemma with_submission_prepend:
  assumes "with_submission c sub evs" and "list_all quiet pre"
  shows "with_submission c sub (pre @ evs)"
proof -
  from assms(1) obtain p post where "evs = p @ (if c then sub # post else [])"
    "list_all quiet p" "list_all quiet post"
    unfolding with_submission_def by (elim exE conjE)
  with assms(2) show ?thesis
    by (intro with_submissionI [of _ "pre @ p" _ _ post]) simp_all
qed

lemma with_submission_append:
  assumes "with_submission c sub evs" and "list_all quiet post"
  shows "with_submission c sub (evs @ post)"
proof -
  from assms(1) obtain pre p where "evs = pre @ (if c then sub # p else [])"
    "list_all quiet pre" "list_all quiet p"
    unfolding with_submission_def by (elim exE conjE)
  with assms(2) show ?thesis
    by (cases c)
      (simp_all add: with_submissionI [of _ pre _ _ "p @ post"]
        with_submissionI [of _ "pre @ post" _ _ "[]"])
qed

lemma with_submission_member:
  assumes "with_submission c (WalletTransfer q' a' d' g') evs"
  shows "WalletTransfer q a d g \<in> set evs \<longleftrightarrow> c \<and> q = q' \<and> a = a' \<and> d = d' \<and> g = g'"
    and "Print (S ''Error: Wallet '' # rest) \<notin> set evs"
proof -
  from assms obtain pre post where evs: "evs = pre @ (if c then WalletTransfer q' a' d' g' # post else [])"
    and q: "list_all quiet pre" "list_all quiet post"
    unfolding with_submission_def by (elim exE conjE)
  show "WalletTransfer q a d g \<in> set evs \<longleftrightarrow> c \<and> q = q' \<and> a = a' \<and> d = d' \<and> g = g'"
    unfolding evs using quiet_set(1) [OF q(1)] quiet_set(1) [OF q(2)] by (cases c) simp_all
  show "Print (S ''Error: Wallet '' # rest) \<notin> set evs"
    unfolding evs using quiet_set(2) [OF q(1)] quiet_set(2) [OF q(2)] by (cases c) simp_all
qed

lemma confirm_and_submit_events:
  "with_submission (confirmed w)
     (WalletTransfer quantity asset_id to_address (asset_id = ''usdc''))
     (fst (confirm_and_submit w to_address quantity asset_id))"
proof (cases "confirmation w")
  case Raises
  then show ?thesis
    by (simp add: confirm_and_submit_def confirmed_def with_submission_quiet)
next
  case (Returns c)
  show ?thesis
  proof (cases "lower c = ''yes''")
    case False
    with Returns show ?thesis
      by (simp add: confirm_and_submit_def confirmed_def with_submission_quiet)
  next
    case True
    with Returns have yes: "confirmed w"
      by (simp add: confirmed_def)
    have "list_all quiet (case created_transfer w of
              Raises \<Rightarrow> []
            | Returns tr \<Rightarrow> Print [S ''Transfer created with status: '', S (status tr)]
                # fst (report_transfer w tr))"
      by (simp add: quiet_report_transfer split: outcome.splits)
    then show ?thesis
      using Returns True yes
      by (intro with_submissionI [of _ "[AskConfirmation, Print [S ''Preparing transaction...''],
              Print [S ''Creating transfer...'']]" _ _
            "case created_transfer w of
              Raises \<Rightarrow> []
            | Returns tr \<Rightarrow> Print [S ''Transfer created with status: '', S (status tr)]
                # fst (report_transfer w tr)"])
        (simp_all add: confirm_and_submit_def split: outcome.splits)
  qed
qed


lemma check_balance_events:
  "with_submission (covered w quantity asset_id \<and> network \<noteq> None \<and> confirmed w)
     (WalletTransfer quantity (lower asset_id) to_address (lower asset_id = ''usdc''))
     (fst (check_balance w network from_address to_address quantity asset_id))"
proof (cases "balances w")
  case Raises
  then show ?thesis
    by (simp add: check_balance_def Let_def covered_def with_submission_quiet)
next
  case (Returns bs)
  let ?b = "case map_of bs (lower asset_id) of None \<Rightarrow> Fin 0 | Some b \<Rightarrow> b"
  show ?thesis
  proof (cases "float_lt ?b quantity")
    case True
    with Returns show ?thesis
      by (simp add: check_balance_def Let_def covered_def with_submission_quiet)
  next
    case False
    with Returns have cov: "covered w quantity asset_id"
      by (simp add: covered_def)
    show ?thesis
    proof (cases network)
      case None
      with Returns False show ?thesis
        by (simp add: check_balance_def Let_def with_submission_quiet)
    next
      case (Some n)
      have "with_submission (confirmed w)
          (WalletTransfer quantity (lower asset_id) to_address (lower asset_id = ''usdc''))
          (([Print [S ''Checking current balance...''], WalletBalances, Print [S ''Current balance:'']]
            @ balance_lines bs
            @ [Print [S ''Transaction Details:''], Print [S ''From: '', S from_address],
               Print [S ''To: '', S to_address], Print [S ''Amount: '', F quantity],
               Print [S ''Asset ID: '', S (lower asset_id)], Print [S ''Network: '', S n],
               Print [S ''Gasless: '', B (lower asset_id = ''usdc'')]])
           @ fst (confirm_and_submit w to_address quantity (lower asset_id)))"
        by (rule with_submission_prepend [OF confirm_and_submit_events]) simp
      with Returns False Some cov show ?thesis
        by (simp add: check_balance_def Let_def)
    qed
  qed
qed

lemma locate_wallet_unknown:
  assumes "wallets w = Returns ws" and "find_wallet from_address ws = Returns None"
  shows "locate_wallet w network from_address to_address quantity asset_id =
           ([Print [S ''Locating wallet '', S from_address, S ''...''], WalletList,
             Print [S ''Error: Wallet '', S from_address, S '' not found in CDP'']],
            Returns ())"
  using assms by (simp add: locate_wallet_def after_def)

lemma locate_wallet_events:
  assumes "\<not> (\<exists>ws. wallets w = Returns ws \<and> find_wallet from_address ws = Returns None)"
  shows "with_submission
     (located w from_address \<and> covered w quantity asset_id \<and> network \<noteq> None \<and> confirmed w)
     (WalletTransfer quantity (lower asset_id) to_address (lower asset_id = ''usdc''))
     (fst (locate_wallet w network from_address to_address quantity asset_id))"
proof (cases "wallets w")
  case Raises
  then show ?thesis
    by (simp add: locate_wallet_def located_def with_submission_quiet)
next
  case (Returns ws)
  show ?thesis
  proof (cases "find_wallet from_address ws")
    case Raises
    with Returns show ?thesis
      by (simp add: locate_wallet_def located_def with_submission_quiet)
  next
    case found: (Returns t)
    with assms Returns obtain tw where tw: "t = Some tw"
      by (cases t) simp_all
    show ?thesis
    proof (cases "reloaded w")
      case Raises
      with Returns found tw show ?thesis
        by (simp add: locate_wallet_def located_def with_submission_quiet)
    next
      case rel: (Returns x)
      with Returns found tw have loc: "located w from_address"
        by (simp add: located_def)
      have "with_submission (covered w quantity asset_id \<and> network \<noteq> None \<and> confirmed w)
          (WalletTransfer quantity (lower asset_id) to_address (lower asset_id = ''usdc''))
          ([Print [S ''Locating wallet '', S from_address, S ''...''], WalletList, WalletReload,
            Print [S ''Wallet signing capability: '', B (can_sign x)],
            Print [S ''Server signer status: '', S (server_signer_status x)]]
           @ fst (check_balance w network from_address to_address quantity asset_id))"
        by (rule with_submission_prepend [OF check_balance_events]) simp
      with Returns found tw rel loc show ?thesis
        by (simp add: locate_wallet_def)
    qed
  qed
qed

lemma send_tokens_file_not_found:
  "local_file w = FileNotFound \<Longrightarrow>
   send_tokens w wallet_path from_address to_address quantity asset_id =
     [OpenWalletFile wallet_path (from_address @ ''.txt''),
      Print [S ''Error: Wallet file not found at '', Path wallet_path (from_address @ ''.txt'')]]"
  by (simp add: send_tokens_def after_def)

lemma send_tokens_unknown:
  assumes "local_file w = WalletInfo network" and "wallets w = Returns ws"
    and "find_wallet from_address ws = Returns None"
  shows "send_tokens w wallet_path from_address to_address quantity asset_id =
     [OpenWalletFile wallet_path (from_address @ ''.txt''),
      Print [S ''Locating wallet '', S from_address, S ''...''], WalletList,
      Print [S ''Error: Wallet '', S from_address, S '' not found in CDP'']]"
  using assms(1) by (simp add: send_tokens_def after_def locate_wallet_unknown [OF assms(2,3)])

lemma send_tokens_events:
  assumes "\<not> (\<exists>network ws. local_file w = WalletInfo network \<and> wallets w = Returns ws
              \<and> find_wallet from_address ws = Returns None)"
  shows "with_submission (reaches_submission w from_address quantity asset_id)
     (WalletTransfer quantity (lower asset_id) to_address (lower asset_id = ''usdc''))
     (send_tokens w wallet_path from_address to_address quantity asset_id)"
proof (cases "local_file w")
  case FileNotFound
  then show ?thesis
    by (simp add: send_tokens_file_not_found reaches_submission_def with_submission_quiet)
next
  case LoadFails
  then show ?thesis
    by (simp add: send_tokens_def after_def reaches_submission_def with_submission_quiet)
next
  case (WalletInfo network)
  with assms have "\<not> (\<exists>ws. wallets w = Returns ws \<and> find_wallet from_address ws = Returns None)"
    by simp
  from locate_wallet_events [OF this]
  have loc: "with_submission
     (located w from_address \<and> covered w quantity asset_id \<and> network \<noteq> None \<and> confirmed w)
     (WalletTransfer quantity (lower asset_id) to_address (lower asset_id = ''usdc''))
     (fst (locate_wallet w network from_address to_address quantity asset_id))" .
  have cond: "reaches_submission w from_address quantity asset_id \<longleftrightarrow>
      located w from_address \<and> covered w quantity asset_id \<and> network \<noteq> None \<and> confirmed w"
    using WalletInfo by (cases network) (simp_all add: reaches_submission_def)
  have opened: "with_submission (reaches_submission w from_address quantity asset_id)
     (WalletTransfer quantity (lower asset_id) to_address (lower asset_id = ''usdc''))
     ([OpenWalletFile wallet_path (from_address @ ''.txt'')]
        @ fst (locate_wallet w network from_address to_address quantity asset_id))"
    unfolding cond by (rule with_submission_prepend [OF loc]) simp
  show ?thesis
  proof (cases "snd (locate_wallet w network from_address to_address quantity asset_id)")
    case (Returns u)
    with WalletInfo opened show ?thesis
      by (simp add: send_tokens_def after_def split: prod.splits)
  next
    case Raises
    have "with_submission (reaches_submission w from_address quantity asset_id)
     (WalletTransfer quantity (lower asset_id) to_address (lower asset_id = ''usdc''))
     (([OpenWalletFile wallet_path (from_address @ ''.txt'')]
        @ fst (locate_wallet w network from_address to_address quantity asset_id))
      @ [Print [S ''Error sending tokens: '', Obj ''str(e)''],
         Print [Obj ''traceback.format_exc()'']])"
      by (rule with_submission_append [OF opened]) simp
    with WalletInfo Raises show ?thesis
      by (simp add: send_tokens_def after_def split: prod.splits)
  qed
qed

text \<open>When \<open>send_tokens\<close> calls \<open>wallet.transfer\<close>, and with what.\<close>

lemma submission_iff:
  "WalletTransfer q a d g \<in> set (send_tokens w wallet_path from_address to_address quantity asset_id)
   \<longleftrightarrow> reaches_submission w from_address quantity asset_id
       \<and> q = quantity \<and> a = lower asset_id \<and> d = to_address \<and> g = (lower asset_id = ''usdc'')"
proof (cases "\<exists>network ws. local_file w = WalletInfo network \<and> wallets w = Returns ws
              \<and> find_wallet from_address ws = Returns None")
  case True
  then obtain network ws where u: "local_file w = WalletInfo network" "wallets w = Returns ws"
    "find_wallet from_address ws = Returns None"
    by (elim exE conjE)
  then have "\<not> reaches_submission w from_address quantity asset_id"
    by (simp add: reaches_submission_def located_def)
  then show ?thesis
    by (simp add: send_tokens_unknown [OF u])
next
  case False
  from with_submission_member(1) [OF send_tokens_events [OF False]] show ?thesis .
qed

text \<open>When \<open>send_tokens\<close> reports that the wallet is not found in CDP.\<close>

lemma not_found_iff:
  "Print [S ''Error: Wallet '', S a, S '' not found in CDP'']
     \<in> set (send_tokens w wallet_path from_address to_address quantity asset_id)
   \<longleftrightarrow> a = from_address
       \<and> (\<exists>network ws. local_file w = WalletInfo network \<and> wallets w = Returns ws
              \<and> find_wallet from_address ws = Returns None)"
proof (cases "\<exists>network ws. local_file w = WalletInfo network \<and> wallets w = Returns ws
              \<and> find_wallet from_address ws = Returns None")
  case True
  then obtain network ws where u: "local_file w = WalletInfo network" "wallets w = Returns ws"
    "find_wallet from_address ws = Returns None"
    by (elim exE conjE)
  show ?thesis
    using True by (simp add: send_tokens_unknown [OF u])
next
  case False
  from with_submission_member(2) [OF send_tokens_events [OF False]] False show ?thesis
    by simp
qed

lemma find_wallet_None_iff:
  "find_wallet a ws = Returns None
   \<longleftrightarrow> list_all (\<lambda>wl. case default_address wl of None \<Rightarrow> False | Some x \<Rightarrow> x \<noteq> a) ws"
  by (induction ws) (simp_all split: option.splits)

section \<open>The closing lines\<close>

lemma closing_simps [simp]:
  "\<not> closing TransferReload" "\<not> closing (Sleep n)" "\<not> closing (OpenWalletFile d f)"
  "\<not> closing WalletList" "\<not> closing WalletReload" "\<not> closing WalletBalances"
  "\<not> closing AskConfirmation" "\<not> closing (WalletTransfer q a t g)"
  "closing (Print (S p # rest)) \<longleftrightarrow>
     p = ''Transfer timed out after '' \<or> p = ''Transfer failed!'' \<or> p = ''Unexpected status: ''"
  "\<not> closing (Print (Upper u # rest))" "\<not> closing (Print (Obj x # rest))"
  by (simp_all add: closing_def)

lemma closing_balance_lines [simp]: "filter closing (balance_lines bs) = []"
  by (induction bs) (simp_all add: balance_lines_def split: prod.splits)

lemma closing_transfer_details [simp]: "filter closing (transfer_details tr) = []"
  by (simp add: transfer_details_def)

lemma closing_pending_pass [simp]: "filter closing (pending_pass p) = []"
  by (simp add: pending_pass_def split: option.splits)

lemma closing_pending_events [simp]: "filter closing (pending_events ps k) = []"
  by (induction k) (simp_all add: pending_events_Suc)

lemma closing_report_transfer:
  "filter closing (fst (report_transfer w tr))
     = filter closing (fst (snd (wait_for_transfer tr 10 (wait_start w) (wait_delay w))))"
  by (simp add: report_transfer_def
      split: prod.splits outcome.splits bool.splits option.splits)

lemma closing_confirm_and_submit:
  "filter closing (fst (confirm_and_submit w to_address quantity asset_id))
     = (if confirmed w
        then (case created_transfer w of
                Raises \<Rightarrow> []
              | Returns tr \<Rightarrow>
                  filter closing (fst (snd (wait_for_transfer tr 10 (wait_start w) (wait_delay w)))))
        else [])"
  by (simp add: confirm_and_submit_def confirmed_def closing_report_transfer
      split: outcome.splits)

lemma closing_check_balance:
  "filter closing (fst (check_balance w network from_address to_address quantity asset_id))
     = (if covered w quantity asset_id \<and> network \<noteq> None
        then filter closing (fst (confirm_and_submit w to_address quantity (lower asset_id)))
        else [])"
  by (simp add: check_balance_def covered_def Let_def split: outcome.splits option.splits)

lemma closing_locate_wallet:
  "filter closing (fst (locate_wallet w network from_address to_address quantity asset_id))
     = (if located w from_address
        then filter closing
               (fst (check_balance w network from_address to_address quantity asset_id))
        else [])"
  by (simp add: locate_wallet_def located_def split: outcome.splits option.splits)

lemma closing_send_tokens:
  "filter closing (send_tokens w wallet_path from_address to_address quantity asset_id)
     = (if reaches_submission w from_address quantity asset_id
        then (case created_transfer w of
                Raises \<Rightarrow> []
              | Returns tr \<Rightarrow>
                  filter closing (fst (snd (wait_for_transfer tr 10 (wait_start w) (wait_delay w)))))
        else [])"
proof (cases "local_file w")
  case FileNotFound
  then show ?thesis by (simp add: send_tokens_def after_def reaches_submission_def)
next
  case LoadFails
  then show ?thesis by (simp add: send_tokens_def after_def reaches_submission_def)
next
  case (WalletInfo network)
  obtain evs r where run:
    "locate_wallet w network from_address to_address quantity asset_id = (evs, r)"
    by (cases "locate_wallet w network from_address to_address quantity asset_id") simp
  have "filter closing (send_tokens w wallet_path from_address to_address quantity asset_id)
      = filter closing evs"
    using WalletInfo run by (cases r) (simp_all add: send_tokens_def after_def)
  also have "\<dots> = filter closing
      (fst (locate_wallet w network from_address to_address quantity asset_id))"
    by (simp add: run)
  finally show ?thesis
    using WalletInfo
    by (cases network)
      (simp_all add: closing_locate_wallet closing_check_balance closing_confirm_and_submit
        reaches_submission_def)
qed

text \<open>What the closing lines of a run that returns tell about it.\<close>

lemma local_clock_closing:
  assumes "wait_loop_local_clock shift ps m timeout 0 t0 = Some (r, evs, fin)"
  shows "r = Returns False \<longleftrightarrow> filter closing evs \<noteq> []"
    and "filter closing evs = []
        \<or> filter closing evs = [Print [S ''Transfer timed out after '', I m, S '' minutes!'']]
        \<or> filter closing evs = [Print [S ''Transfer failed!'']]
        \<or> (\<exists>st. filter closing evs = [Print [S ''Unexpected status: '', S st]])"
    and "filter closing evs = [Print [S ''Transfer timed out after '', I m, S '' minutes!'']]
         \<longleftrightarrow> deadline_comes shift ps t0 timeout"
    and "filter closing evs = [Print [S ''Transfer failed!'']]
         \<longleftrightarrow> (\<exists>st. status_seen shift ps t0 timeout st
                \<and> \<not> str_in ''complete'' (lower st) \<and> str_in ''failed'' (lower st))"
    and "filter closing evs = [Print [S ''Unexpected status: '', S st]]
         \<longleftrightarrow> status_seen shift ps t0 timeout st
             \<and> \<not> str_in ''complete'' (lower st) \<and> \<not> str_in ''failed'' (lower st)
             \<and> \<not> str_in ''pending'' (lower st)"
proof -
  let ?lt = "local_time shift ps t0"
  from assms obtain k evs' where k: "\<forall>j<k. sleeps shift ps t0 timeout j"
    "\<not> sleeps shift ps t0 timeout k"
    and last: "wait_loop_local_clock shift ps m timeout k (?lt k) = Some (r, evs', fin)"
    and evs: "evs = pending_events ps k @ evs'"
    by (rule local_clock_returns)
  have closing: "filter closing evs = filter closing evs'"
    by (simp add: evs)
  have late: "k' = k" if "\<forall>j<k'. sleeps shift ps t0 timeout j" "timeout \<le> ?lt k'" for k'
  proof -
    from that(2) have "\<not> sleeps shift ps t0 timeout k'"
      by (simp add: sleeps_iff)
    with that(1) k show ?thesis
      by (intro first_stop_unique [of k' "sleeps shift ps t0 timeout" k]) simp_all
  qed
  have seen: "k' = k" if "\<forall>j<k'. sleeps shift ps t0 timeout j"
    "status_after (ps k') = Some st'" "\<not> pending_status st'" for k' st'
  proof -
    from that(2,3) have "\<not> sleeps shift ps t0 timeout k'"
      by (simp add: sleeps_iff)
    with that(1) k show ?thesis
      by (intro first_stop_unique [of k' "sleeps shift ps t0 timeout" k]) simp_all
  qed
  have dc: "deadline_comes shift ps t0 timeout \<longleftrightarrow> timeout \<le> ?lt k"
    unfolding deadline_comes_def using late k(1) by blast
  define cpl where "cpl = (\<lambda>st. str_in ''complete'' (lower st))"
  define fld where "fld = (\<lambda>st. str_in ''failed'' (lower st))"
  define pnd where "pnd = (\<lambda>st. str_in ''pending'' (lower st))"
  have ps: "pending_status st' \<longleftrightarrow> \<not> cpl st' \<and> \<not> fld st' \<and> pnd st'" for st'
    by (simp add: pending_status_def cpl_def fld_def pnd_def)
  have ss: "status_seen shift ps t0 timeout st' \<longleftrightarrow>
      ?lt k < timeout \<and> status_after (ps k) = Some st'" if "\<not> pending_status st'" for st'
    unfolding status_seen_def using seen [OF _ _ that] k(1) by blast
  have "(\<exists>st. status_seen shift ps t0 timeout st \<and> \<not> cpl st \<and> fld st)
      \<longleftrightarrow> ?lt k < timeout \<and> (\<exists>st. status_after (ps k) = Some st \<and> \<not> cpl st \<and> fld st)"
    using ss ps by blast
  note fr = this [unfolded cpl_def fld_def]
  have "status_seen shift ps t0 timeout st \<and> \<not> cpl st \<and> \<not> fld st \<and> \<not> pnd st
      \<longleftrightarrow> ?lt k < timeout \<and> status_after (ps k) = Some st
          \<and> \<not> cpl st \<and> \<not> fld st \<and> \<not> pnd st"
    using ss ps by blast
  note ur = this [unfolded cpl_def fld_def pnd_def]
  have "(r = Returns False \<longleftrightarrow> filter closing evs \<noteq> [])
    \<and> (filter closing evs = []
        \<or> filter closing evs = [Print [S ''Transfer timed out after '', I m, S '' minutes!'']]
        \<or> filter closing evs = [Print [S ''Transfer failed!'']]
        \<or> (\<exists>st. filter closing evs = [Print [S ''Unexpected status: '', S st]]))
    \<and> (filter closing evs = [Print [S ''Transfer timed out after '', I m, S '' minutes!'']]
         \<longleftrightarrow> deadline_comes shift ps t0 timeout)
    \<and> (filter closing evs = [Print [S ''Transfer failed!'']]
         \<longleftrightarrow> (\<exists>st. status_seen shift ps t0 timeout st
                \<and> \<not> str_in ''complete'' (lower st) \<and> str_in ''failed'' (lower st)))
    \<and> (filter closing evs = [Print [S ''Unexpected status: '', S st]]
         \<longleftrightarrow> status_seen shift ps t0 timeout st
             \<and> \<not> str_in ''complete'' (lower st) \<and> \<not> str_in ''failed'' (lower st)
             \<and> \<not> str_in ''pending'' (lower st))"
    (is "?A1 \<and> ?A2 \<and> ?A3 \<and> ?A4 \<and> ?A5")
  proof (cases "?lt k < timeout")
    case False
    with last have "r = Returns False"
      "evs' = [Print [S ''Transfer timed out after '', I m, S '' minutes!'']]"
      by (simp_all add: local_clock_deadline)
    with False show ?thesis
      by (simp add: closing dc fr ur)
  next
    case True
    show ?thesis
    proof (cases "status_after (ps k)")
      case None
      with True last have "r = Raises" "evs' = [TransferReload]"
        by (simp_all add: local_clock_raises)
      with True None show ?thesis
        by (simp add: closing dc fr ur)
    next
      case (Some st0)
      with True k(2) have np: "\<not> pending_status st0"
        by (simp add: sleeps_iff)
      consider (c) "str_in ''complete'' (lower st0)"
        | (f) "\<not> str_in ''complete'' (lower st0)" "str_in ''failed'' (lower st0)"
        | (u) "\<not> str_in ''complete'' (lower st0)" "\<not> str_in ''failed'' (lower st0)"
              "\<not> str_in ''pending'' (lower st0)"
        using np unfolding pending_status_def by blast
      then show ?thesis
      proof cases
        case c
        from last local_clock_complete [where ps = ps and i = k, OF True Some c]
        have "r = Returns True"
          "evs' = [TransferReload, Print [S ''Current status: '', S st0],
                   Print [S ''Transfer completed!'']]"
          by simp_all
        with True Some c show ?thesis
          by (cases "st = st0") (simp_all add: closing dc fr ur ss [OF np])
      next
        case f
        from last local_clock_failed [where ps = ps and i = k, OF True Some f]
        have "r = Returns False"
          "evs' = [TransferReload, Print [S ''Current status: '', S st0],
                   Print [S ''Transfer failed!'']]"
          by simp_all
        with True Some f show ?thesis
          by (cases "st = st0") (simp_all add: closing dc fr ur ss [OF np])
      next
        case u
        from last local_clock_unexpected [where ps = ps and i = k, OF True Some u]
        have "r = Returns False"
          "evs' = [TransferReload, Print [S ''Current status: '', S st0],
                   Print [S ''Unexpected status: '', S st0]]"
          by simp_all
        with True Some u show ?thesis
          by (cases "st = st0") (simp_all add: closing dc fr ur ss [OF np])
      qed
    qed
  qed
  then have all: "?A1 \<and> ?A2 \<and> ?A3 \<and> ?A4 \<and> ?A5" .
  from all show ?A1 by (rule conjunct1)
  from all show ?A2 by (rule conjunct2 [THEN conjunct1])
  from all show ?A3 by (rule conjunct2 [THEN conjunct2, THEN conjunct1])
  from all show ?A4 by (rule conjunct2 [THEN conjunct2, THEN conjunct2, THEN conjunct1])
  from all show ?A5 by (rule conjunct2 [THEN conjunct2, THEN conjunct2, THEN conjunct2])
qed

section \<open>Facts about the examples\<close>

lemma abc_is_no_float: "py_float ''abc'' = None"
  by code_simp

lemma nan_is_a_float: "py_float ''nan'' = Some NaN"
  by code_simp

lemma lowered_words:
  "lower ''UsDc'' = ''usdc''" "lower ''eth'' = ''eth''" "lower ''ETH'' = ''eth''"
  "lower ''yes'' = ''yes''"
  by code_simp+

lemma ready_world_located: "located ready_world ''0xA11CE''"
  by (simp add: located_def ready_world_def fresh_wallet_def)

lemma ready_world_confirmed: "confirmed ready_world"
  by (simp add: confirmed_def ready_world_def lowered_words)

lemma ready_world_file: "\<exists>n. local_file ready_world = WalletInfo (Some n)"
  by (simp add: ready_world_def)

lemma float_le_iff_not_lt: "x \<noteq> NaN \<Longrightarrow> y \<noteq> NaN \<Longrightarrow> float_le x y \<longleftrightarrow> \<not> float_lt y x"
  by (cases x; cases y) auto

lemma wallet_manager_good:
  "wallet_manager good_startup =
     ([Print [S ''CDP SDK has been successfully configured from JSON file.''],
       Print [S ''Server signer has been enabled for transaction signing.'']], None)"
  by (simp add: wallet_manager_def load_credentials_def load_env_config_def after_def
      good_startup_def)

lemma wallet_manager_no_key:
  "wallet_manager no_key_file =
     ([Print [S ''Error: cdp_api_key.json not found''],
       Print [S ''Please ensure your CDP API credentials are in cdp_api_key.json'']],
      Some (Ends (SysExit 1)))"
  by (simp add: wallet_manager_def load_credentials_def no_key_file_def good_startup_def)

lemma lower_send: "lower ''send'' = ''send''" "lower ''frobnicate'' = ''frobnicate''"
  "lower ''SEND'' = ''send''"
  by code_simp+





section \<open>The balance check\<close>

text \<open>
  What holds for every run. A balance below the quantity stops the run at the check: the
  three lines of the error, with the quantity and the balance read, and no call of
  \<open>wallet.transfer\<close>. And a call of \<open>wallet.transfer\<close> with a quantity that is a number
  means that the balance read was not below it.
\<close>

lemma insufficient_balance_stops:
  assumes "balances w = Returns bs"
    and "float_lt (case map_of bs (lower asset_id) of None \<Rightarrow> Fin 0 | Some b \<Rightarrow> b) quantity"
  shows "WalletTransfer q a d g
           \<notin> set (send_tokens w wallet_path from_address to_address quantity asset_id)"
    and "fst (check_balance w network from_address to_address quantity asset_id) =
           [Print [S ''Checking current balance...''], WalletBalances, Print [S ''Current balance:'']]
           @ balance_lines bs
           @ [Print [S ''Error: Insufficient balance''],
              Print [S ''Required: '', F quantity, S '' '', Upper (lower asset_id)],
              Print [S ''Available: '',
                     F (case map_of bs (lower asset_id) of None \<Rightarrow> Fin 0 | Some b \<Rightarrow> b),
                     S '' '', Upper (lower asset_id)]]"
  using assms
  by (simp_all add: submission_iff reaches_submission_def covered_def check_balance_def Let_def)

lemma submission_needs_cover:
  assumes "WalletTransfer q a d g
             \<in> set (send_tokens w wallet_path from_address to_address quantity asset_id)"
    and "quantity \<noteq> NaN"
  shows "\<exists>bs. balances w = Returns bs
           \<and> ((case map_of bs (lower asset_id) of None \<Rightarrow> Fin 0 | Some b \<Rightarrow> b) = NaN
              \<or> float_le quantity (case map_of bs (lower asset_id) of None \<Rightarrow> Fin 0 | Some b \<Rightarrow> b))"
proof -
  from assms(1) have "covered w quantity asset_id"
    by (simp add: submission_iff reaches_submission_def)
  then obtain bs where bs: "balances w = Returns bs"
    and nlt: "\<not> float_lt (case map_of bs (lower asset_id) of None \<Rightarrow> Fin 0 | Some b \<Rightarrow> b) quantity"
    unfolding covered_def by (elim exE conjE)
  show ?thesis
  proof (cases "(case map_of bs (lower asset_id) of None \<Rightarrow> Fin 0 | Some b \<Rightarrow> b) = NaN")
    case True
    with bs show ?thesis by simp
  next
    case False
    with nlt assms(2) bs show ?thesis
      by (simp add: float_le_iff_not_lt)
  qed
qed

text \<open>
  C1 at the quantity \<open>nan\<close>, which \<open>float(sys.argv[4])\<close> accepts, so that \<open>main\<close>
  calls \<open>send_tokens\<close> with it. The test
  \<open>current_balance < quantity\<close> is false for it, so with a balance of one half and the
  answer \<open>yes\<close> the run goes on to \<open>wallet.transfer(amount=nan, ...)\<close>, although
  \<open>quantity <= balance\<close> does not hold.
\<close>

theorem nan_quantity_is_submitted:
  "main py_float good_startup
     [''wallet_manager.py'', ''send'', ''0xA11CE'', ''0xB0B'', ''nan'', ''eth''] =
     ([Print [S ''CDP SDK has been successfully configured from JSON file.''],
       Print [S ''Server signer has been enabled for transaction signing.'']],
      Calls (SendTokens ''0xA11CE'' ''0xB0B'' NaN ''eth''))
   \<and> map_of [(''eth'', Fin (1 / 2)), (''usdc'', Fin 25 :: pyfloat)] (lower ''eth'') = Some (Fin (1 / 2))
   \<and> \<not> float_le NaN (Fin (1 / 2))
   \<and> WalletTransfer NaN ''eth'' ''0xB0B'' False
        \<in> set (send_tokens ready_world ''./wallets'' ''0xA11CE'' ''0xB0B'' NaN ''eth'')"
proof -
  have "covered ready_world NaN ''eth''"
    by (simp add: covered_def ready_world_def lowered_words)
  then have "reaches_submission ready_world ''0xA11CE'' NaN ''eth''"
    by (simp add: reaches_submission_def ready_world_located ready_world_confirmed ready_world_file)
  moreover have "main py_float good_startup
     [''wallet_manager.py'', ''send'', ''0xA11CE'', ''0xB0B'', ''nan'', ''eth''] =
     ([Print [S ''CDP SDK has been successfully configured from JSON file.''],
       Print [S ''Server signer has been enabled for transaction signing.'']],
      Calls (SendTokens ''0xA11CE'' ''0xB0B'' NaN ''eth''))"
    by (simp add: main_def wallet_manager_good lower_send nan_is_a_float)
  ultimately show ?thesis
    by (simp add: submission_iff lowered_words)
qed

section \<open>Three reloads to completion\<close>

text \<open>
  C2. When the first two reloads show a pending status, the third shows a status that
  contains \<open>complete\<close>, and the third test of the loop condition comes before the
  deadline, \<open>_wait_for_transfer\<close> returns \<open>True\<close>. Its events are the six lines of
  details, two passes that reload, print and sleep, and a third pass that reloads and
  prints \<open>Transfer completed!\<close>: three reloads in all, none after the third.
\<close>

theorem pending_pending_complete:
  assumes "status_after (polls tr 0) = Some s0" and "pending_status s0"
    and "status_after (polls tr 1) = Some s1" and "pending_status s1"
    and "status_after (polls tr 2) = Some s2" and "str_in ''complete'' (lower s2)"
    and "pass_time (polls tr) (start_time + int delay) 2 < start_time + m * 60000000"
  shows "wait_for_transfer tr m start_time delay =
           (Returns True,
            transfer_details tr
              @ [TransferReload, Print [S ''Current status: '', S s0], Print [S ''.''], Sleep 2,
                 TransferReload, Print [S ''Current status: '', S s1], Print [S ''.''], Sleep 2,
                 TransferReload, Print [S ''Current status: '', S s2],
                 Print [S ''Transfer completed!'']],
            pass_time (polls tr) (start_time + int delay) 2 + int (reload_time (polls tr 2)))
         \<and> reloads (fst (snd (wait_for_transfer tr m start_time delay))) = 3"
proof -
  have two: "\<forall>j<2. \<exists>s. status_after (polls tr j) = Some s \<and> pending_status s"
  proof (intro allI impI)
    fix j :: nat
    assume "j < 2"
    then have "j = 0 \<or> j = 1" by auto
    then show "\<exists>s. status_after (polls tr j) = Some s \<and> pending_status s"
      using assms(1-4) by auto
  qed
  have events: "pending_events (polls tr) 2 =
      [TransferReload, Print [S ''Current status: '', S s0], Print [S ''.''], Sleep 2,
       TransferReload, Print [S ''Current status: '', S s1], Print [S ''.''], Sleep 2]"
    using assms(1,3) by (simp add: pending_events_def pending_pass_def numeral_2_eq_2)
  have "wait_for_transfer tr m start_time delay =
           (Returns True,
            transfer_details tr @ pending_events (polls tr) 2
              @ [TransferReload, Print [S ''Current status: '', S s2],
                 Print [S ''Transfer completed!'']],
            pass_time (polls tr) (start_time + int delay) 2 + int (reload_time (polls tr 2)))"
    by (simp add: wait_for_transfer_reaches [OF two assms(7)]
        wait_loop_complete [where ps = "polls tr" and i = 2, OF assms(7) assms(5,6)])
  then show ?thesis
    by (simp add: events)
qed

theorem pending_pending_complete_witness:
  "wait_for_transfer settling_transfer 10 0 0 =
     (Returns True,
      transfer_details settling_transfer
        @ [TransferReload, Print [S ''Current status: '', S ''PENDING''], Print [S ''.''], Sleep 2,
           TransferReload, Print [S ''Current status: '', S ''PENDING''], Print [S ''.''], Sleep 2,
           TransferReload, Print [S ''Current status: '', S ''COMPLETE''],
           Print [S ''Transfer completed!'']],
      4450600)
   \<and> reloads (fst (snd (wait_for_transfer settling_transfer 10 0 0))) = 3"
proof -
  have c: "str_in ''complete'' (lower ''COMPLETE'')"
    by code_simp
  have t: "pass_time (polls settling_transfer) (0 + int 0) 2 < 0 + 10 * 60000000"
    by (simp add: settling_transfer_def numeral_2_eq_2)
  have "pass_time (polls settling_transfer) 0 2 + int (reload_time (polls settling_transfer 2))
          = 4450600"
    by (simp add: settling_transfer_def numeral_2_eq_2)
  then show ?thesis
    using pending_pending_complete [of settling_transfer "''PENDING''" "''PENDING''" "''COMPLETE''"
        0 0 10, OF _ upper_pending_is_pending _ upper_pending_is_pending _ c t]
    by (simp add: settling_transfer_def)
qed

section \<open>The deadline\<close>




section \<open>Timed out or failed\<close>

text \<open>
  C4. \<open>send_tokens\<close> returns \<open>None\<close> on every path, so what its caller gets is what is
  printed. Whatever the clock does, a run of \<open>_wait_for_transfer\<close> that returns prints at
  most one closing line, and prints one exactly when it returns \<open>False\<close>. The line tells
  what happened: it is \<open>Transfer timed out after m minutes!\<close> exactly when the deadline
  came without a terminal status, \<open>Transfer failed!\<close> exactly when a status with
  \<open>failed\<close> and without \<open>complete\<close> was seen before the deadline, and
  \<open>Unexpected status: st\<close> exactly when a status \<open>st\<close> with none of the three keywords
  was seen before the deadline. \<open>send_tokens\<close> prints no closing line of its own: the
  closing lines among its events are those of the wait for the transfer it has created,
  when it gets that far. That wait is the one under a clock that is never adjusted.
\<close>

theorem timed_out_is_told_apart_from_failed:
  "(wait_for_transfer_local_clock shift tr m start_time delay = Some (r, evs, fin) \<longrightarrow>
      (r = Returns False \<longleftrightarrow> filter closing evs \<noteq> [])
    \<and> (filter closing evs = []
        \<or> filter closing evs = [Print [S ''Transfer timed out after '', I m, S '' minutes!'']]
        \<or> filter closing evs = [Print [S ''Transfer failed!'']]
        \<or> (\<exists>st. filter closing evs = [Print [S ''Unexpected status: '', S st]]))
    \<and> (filter closing evs = [Print [S ''Transfer timed out after '', I m, S '' minutes!'']]
         \<longleftrightarrow> is_datetime (start_time + m * 60000000)
             \<and> deadline_comes shift (polls tr) (start_time + delay)
                  (start_time + m * 60000000))
    \<and> (filter closing evs = [Print [S ''Transfer failed!'']]
         \<longleftrightarrow> is_datetime (start_time + m * 60000000)
             \<and> (\<exists>st. status_seen shift (polls tr) (start_time + delay)
                        (start_time + m * 60000000) st
                    \<and> \<not> str_in ''complete'' (lower st) \<and> str_in ''failed'' (lower st)))
    \<and> (filter closing evs = [Print [S ''Unexpected status: '', S st]]
         \<longleftrightarrow> is_datetime (start_time + m * 60000000)
             \<and> status_seen shift (polls tr) (start_time + delay) (start_time + m * 60000000) st
             \<and> \<not> str_in ''complete'' (lower st) \<and> \<not> str_in ''failed'' (lower st)
             \<and> \<not> str_in ''pending'' (lower st)))
   \<and> filter closing (send_tokens w wallet_path from_address to_address quantity asset_id)
       = (if reaches_submission w from_address quantity asset_id
          then (case created_transfer w of
                  Raises \<Rightarrow> []
                | Returns t \<Rightarrow>
                    filter closing
                      (fst (snd (wait_for_transfer t 10 (wait_start w) (wait_delay w)))))
          else [])
   \<and> wait_for_transfer_local_clock (\<lambda>j. 0) tr m start_time (int d)
       = (if is_datetime (start_time + m * 60000000)
          then Some (wait_for_transfer tr m start_time d)
          else Some (Raises, [], start_time))"
  (is "(?run \<longrightarrow> ?A1 \<and> ?A2 \<and> ?A3 \<and> ?A4 \<and> ?A5) \<and> ?B \<and> ?C")
proof (intro conjI)
  show "?run \<longrightarrow> ?A1 \<and> ?A2 \<and> ?A3 \<and> ?A4 \<and> ?A5"
  proof (rule impI)
    assume run: ?run
    let ?T = "start_time + m * 60000000"
    show "?A1 \<and> ?A2 \<and> ?A3 \<and> ?A4 \<and> ?A5"
    proof (cases "is_datetime ?T")
      case False
      with run have "r = Raises" "evs = []"
        by (simp_all add: wait_for_transfer_local_clock_def)
      with False show ?thesis by simp
    next
      case True
      with run obtain evs' where
        loop: "wait_loop_local_clock shift (polls tr) m ?T 0 (start_time + delay)
                 = Some (r, evs', fin)"
        and evs: "evs = transfer_details tr @ evs'"
        by (cases "wait_loop_local_clock shift (polls tr) m ?T 0 (start_time + delay)")
          (auto simp: wait_for_transfer_local_clock_def)
      have fc: "filter closing evs = filter closing evs'"
        by (simp add: evs)
      note L = local_clock_closing [OF loop]
      have ?A1 unfolding fc by (rule L(1))
      moreover have ?A2 unfolding fc by (rule L(2))
      moreover have ?A3 unfolding fc using L(3) True by simp
      moreover have ?A4 unfolding fc using L(4) True by simp
      moreover have ?A5 unfolding fc using L(5) [of st] True by simp
      ultimately show ?thesis by (intro conjI)
    qed
  qed
  show ?B
    by (rule closing_send_tokens)
  show ?C
    by (rule steady_wait_for_transfer)
qed

theorem timed_out_is_told_apart_from_failed_witness:
  "wait_for_transfer_local_clock (\<lambda>j. 0) slow_transfer 10 0 0 =
     Some (Returns False,
           transfer_details slow_transfer
             @ [TransferReload, Print [S ''Current status: '', S ''pending''], Print [S ''.''],
                Sleep 2, Print [S ''Transfer timed out after '', I 10, S '' minutes!'']],
           602000000)
   \<and> deadline_comes (\<lambda>j. 0) (polls slow_transfer) 0 600000000
   \<and> filter closing
        (send_tokens (ready_world\<lparr>created_transfer := Returns slow_transfer\<rparr>)
           ''./wallets'' ''0xA11CE'' ''0xB0B'' (Fin 10) ''UsDc'')
       = [Print [S ''Transfer timed out after '', I 10, S '' minutes!'']]
   \<and> wait_for_transfer_local_clock (\<lambda>j. 0) failed_transfer 10 0 0 =
       Some (Returns False,
             transfer_details failed_transfer
               @ [TransferReload, Print [S ''Current status: '', S ''failed''],
                  Print [S ''Transfer failed!'']],
             150000)
   \<and> status_seen (\<lambda>j. 0) (polls failed_transfer) 0 600000000 ''failed''
   \<and> filter closing
        (send_tokens (ready_world\<lparr>created_transfer := Returns failed_transfer\<rparr>)
           ''./wallets'' ''0xA11CE'' ''0xB0B'' (Fin 10) ''UsDc'')
       = [Print [S ''Transfer failed!'']]"
proof -
  let ?slow = "transfer_details slow_transfer
             @ [TransferReload, Print [S ''Current status: '', S ''pending''], Print [S ''.''],
                Sleep 2, Print [S ''Transfer timed out after '', I 10, S '' minutes!'']]"
  let ?failed = "transfer_details failed_transfer
               @ [TransferReload, Print [S ''Current status: '', S ''failed''],
                  Print [S ''Transfer failed!'']]"
  have day: "is_datetime (0 + 10 * 60000000)"
    by (simp add: is_datetime_def datetime_max_def)
  have reaches: "reaches_submission (ready_world\<lparr>created_transfer := x\<rparr>)
      ''0xA11CE'' (Fin 10) ''UsDc''" for x
  proof -
    have "covered ready_world (Fin 10) ''UsDc''"
      by (simp add: covered_def ready_world_def lowered_words)
    then have "reaches_submission ready_world ''0xA11CE'' (Fin 10) ''UsDc''"
      by (simp add: reaches_submission_def ready_world_located ready_world_confirmed
          ready_world_file)
    then show ?thesis
      by (simp add: reaches_submission_def located_def covered_def confirmed_def)
  qed
  have clock: "wait_start (ready_world\<lparr>created_transfer := x\<rparr>) = 0"
    "wait_delay (ready_world\<lparr>created_transfer := x\<rparr>) = 0" for x
    by (simp_all add: ready_world_def)
  note slow = timed_out_is_told_apart_from_failed [where shift = "\<lambda>j. 0" and tr = slow_transfer
      and m = 10 and start_time = 0 and delay = 0 and d = 0 and r = "Returns False"
      and evs = ?slow and fin = 602000000 and st = "''failed''"
      and w = "ready_world\<lparr>created_transfer := Returns slow_transfer\<rparr>"
      and wallet_path = "''./wallets''" and from_address = "''0xA11CE''"
      and to_address = "''0xB0B''" and quantity = "Fin 10" and asset_id = "''UsDc''"]
  note failed = timed_out_is_told_apart_from_failed [where shift = "\<lambda>j. 0"
      and tr = failed_transfer
      and m = 10 and start_time = 0 and delay = 0 and d = 0 and r = "Returns False"
      and evs = ?failed and fin = 150000 and st = "''failed''"
      and w = "ready_world\<lparr>created_transfer := Returns failed_transfer\<rparr>"
      and wallet_path = "''./wallets''" and from_address = "''0xA11CE''"
      and to_address = "''0xB0B''" and quantity = "Fin 10" and asset_id = "''UsDc''"]
  have run_slow: "wait_for_transfer_local_clock (\<lambda>j. 0) slow_transfer 10 0 0
      = Some (Returns False, ?slow, 602000000)"
    using slow [THEN conjunct2, THEN conjunct2] day by (simp add: slow_run)
  have run_failed: "wait_for_transfer_local_clock (\<lambda>j. 0) failed_transfer 10 0 0
      = Some (Returns False, ?failed, 150000)"
    using failed [THEN conjunct2, THEN conjunct2] day by (simp add: failed_run)
  have "deadline_comes (\<lambda>j. 0) (polls slow_transfer) 0 600000000"
    using slow [THEN conjunct1, rule_format, OF run_slow, THEN conjunct2, THEN conjunct2,
        THEN conjunct1]
    by simp
  moreover have "\<exists>st. status_seen (\<lambda>j. 0) (polls failed_transfer) 0 600000000 st
      \<and> \<not> str_in ''complete'' (lower st) \<and> str_in ''failed'' (lower st)"
    using failed [THEN conjunct1, rule_format, OF run_failed, THEN conjunct2, THEN conjunct2,
        THEN conjunct2, THEN conjunct1]
    by simp
  then have "status_seen (\<lambda>j. 0) (polls failed_transfer) 0 600000000 ''failed''"
    by (auto simp: status_seen_def failed_transfer_def)
  moreover have "filter closing
        (send_tokens (ready_world\<lparr>created_transfer := Returns slow_transfer\<rparr>)
           ''./wallets'' ''0xA11CE'' ''0xB0B'' (Fin 10) ''UsDc'')
       = [Print [S ''Transfer timed out after '', I 10, S '' minutes!'']]"
    using slow [THEN conjunct2, THEN conjunct1]
    by (simp add: reaches clock slow_run)
  moreover have "filter closing
        (send_tokens (ready_world\<lparr>created_transfer := Returns failed_transfer\<rparr>)
           ''./wallets'' ''0xA11CE'' ''0xB0B'' (Fin 10) ''UsDc'')
       = [Print [S ''Transfer failed!'']]"
    using failed [THEN conjunct2, THEN conjunct1]
    by (simp add: reaches clock failed_run)
  ultimately show ?thesis
    using run_slow run_failed by (intro conjI)
qed

section \<open>The wallet that is not found\<close>

text \<open>
  C5, as the code has it. \<open>send_tokens\<close> prints \<open>Error: Wallet ... not found in CDP\<close>
  exactly when the local wallet file could be loaded, \<open>Wallet.list()\<close> returned, and every
  wallet in the list has a default address other than the one asked for. Without a
  local wallet file it prints \<open>Error: Wallet file not found at ...\<close> and returns before it
  asks the remote service anything.
\<close>

theorem wallet_not_found_after_local_file:
  "(Print [S ''Error: Wallet '', S from_address, S '' not found in CDP'']
      \<in> set (send_tokens w wallet_path from_address to_address quantity asset_id)
    \<longleftrightarrow> (\<exists>network. local_file w = WalletInfo network)
        \<and> (\<exists>ws. wallets w = Returns ws
              \<and> list_all (\<lambda>wl. case default_address wl of None \<Rightarrow> False
                                 | Some x \<Rightarrow> x \<noteq> from_address) ws))
   \<and> (local_file w = FileNotFound \<longrightarrow>
        send_tokens w wallet_path from_address to_address quantity asset_id =
          [OpenWalletFile wallet_path (from_address @ ''.txt''),
           Print [S ''Error: Wallet file not found at '',
                  Path wallet_path (from_address @ ''.txt'')]])"
  by (simp add: not_found_iff find_wallet_None_iff send_tokens_file_not_found)

theorem wallet_not_found_after_local_file_witness:
  "Print [S ''Error: Wallet '', S ''0xCAFE'', S '' not found in CDP'']
      \<in> set (send_tokens ready_world ''./wallets'' ''0xCAFE'' ''0xB0B'' (Fin 1) ''eth'')
   \<and> Print [S ''Error: Wallet '', S ''0xCAFE'', S '' not found in CDP'']
      \<notin> set (send_tokens no_file_world ''./wallets'' ''0xCAFE'' ''0xB0B'' (Fin 1) ''eth'')
   \<and> send_tokens no_file_world ''./wallets'' ''0xCAFE'' ''0xB0B'' (Fin 1) ''eth'' =
        [OpenWalletFile ''./wallets'' ''0xCAFE.txt'',
         Print [S ''Error: Wallet file not found at '', Path ''./wallets'' ''0xCAFE.txt'']]"
  using wallet_not_found_after_local_file [of "''0xCAFE''" ready_world "''./wallets''" "''0xB0B''"
      "Fin 1" "''eth''"]
    wallet_not_found_after_local_file [of "''0xCAFE''" no_file_world "''./wallets''" "''0xB0B''"
      "Fin 1" "''eth''"]
  by (simp add: ready_world_def no_file_world_def fresh_wallet_def)

text \<open>
  C5 as the claim states it fails: with no local wallet file, an address that the remote
  service does not know is reported as a missing file, and \<open>Wallet.list()\<close> is not called.
\<close>

theorem missing_wallet_file_hides_unknown_wallet:
  "wallets no_file_world = Returns []
   \<and> send_tokens no_file_world ''./wallets'' ''0xCAFE'' ''0xB0B'' (Fin 1) ''eth'' =
        [OpenWalletFile ''./wallets'' ''0xCAFE.txt'',
         Print [S ''Error: Wallet file not found at '', Path ''./wallets'' ''0xCAFE.txt'']]"
  by (simp add: send_tokens_file_not_found no_file_world_def ready_world_def)

section \<open>An unrecognised status\<close>

text \<open>
  C6. When the passes before pass \<open>k\<close> all saw a pending status, pass \<open>k\<close> begins before
  the deadline and reloads a status whose lower-case form contains none of \<open>complete\<close>,
  \<open>failed\<close> and \<open>pending\<close> (such as \<open>archived\<close>), then \<open>_wait_for_transfer\<close> returns
  \<open>False\<close> at once: its last line is \<open>Unexpected status: ...\<close>, the reload of pass \<open>k\<close> is
  the last one (\<open>k + 1\<close> reloads in all), and there is no sleep after it.
\<close>

theorem unexpected_status_ends_polling:
  assumes "\<forall>j<k. \<exists>s. status_after (polls tr j) = Some s \<and> pending_status s"
    and "pass_time (polls tr) (start_time + int delay) k < start_time + m * 60000000"
    and "status_after (polls tr k) = Some st"
    and "\<not> str_in ''complete'' (lower st)" and "\<not> str_in ''failed'' (lower st)"
    and "\<not> str_in ''pending'' (lower st)"
  shows "wait_for_transfer tr m start_time delay =
           (Returns False,
            transfer_details tr @ pending_events (polls tr) k
              @ [TransferReload, Print [S ''Current status: '', S st],
                 Print [S ''Unexpected status: '', S st]],
            pass_time (polls tr) (start_time + int delay) k + int (reload_time (polls tr k)))
         \<and> reloads (fst (snd (wait_for_transfer tr m start_time delay))) = k + 1"
proof -
  have run: "wait_for_transfer tr m start_time delay =
           (Returns False,
            transfer_details tr @ pending_events (polls tr) k
              @ [TransferReload, Print [S ''Current status: '', S st],
                 Print [S ''Unexpected status: '', S st]],
            pass_time (polls tr) (start_time + int delay) k + int (reload_time (polls tr k)))"
    by (simp add: wait_for_transfer_reaches [OF assms(1,2)]
        wait_loop_unexpected [where ps = "polls tr" and i = k, OF assms(2-6)])
  have "\<forall>j<k. \<exists>s. status_after (polls tr j) = Some s"
    using assms(1) by blast
  then show ?thesis
    by (simp add: run reloads_pending_events)
qed

theorem unexpected_status_ends_polling_witness:
  "wait_for_transfer archived_transfer 10 0 0 =
     (Returns False,
      transfer_details archived_transfer
        @ [TransferReload, Print [S ''Current status: '', S ''pending''], Print [S ''.''], Sleep 2,
           TransferReload, Print [S ''Current status: '', S ''archived''],
           Print [S ''Unexpected status: '', S ''archived'']],
      2300300)
   \<and> reloads (fst (snd (wait_for_transfer archived_transfer 10 0 0))) = 2"
proof -
  have h1: "\<forall>j<1. \<exists>s. status_after (polls archived_transfer j) = Some s \<and> pending_status s"
    by (simp add: archived_transfer_def pending_is_pending)
  have h2: "pass_time (polls archived_transfer) (0 + int 0) 1 < 0 + 10 * 60000000"
    by (simp add: archived_transfer_def)
  have h3: "status_after (polls archived_transfer 1) = Some ''archived''"
    by (simp add: archived_transfer_def)
  show ?thesis
    using unexpected_status_ends_polling [OF h1 h2 h3 archived_is_unexpected]
    by (simp add: archived_transfer_def pending_events_def pending_pass_def)
qed

section \<open>The gasless flag\<close>

text \<open>
  C7. Whenever \<open>send_tokens\<close> calls \<open>wallet.transfer\<close>, the \<open>gasless\<close> argument is true
  exactly when the asset given on the command line is one of the sixteen spellings of
  \<open>usdc\<close> in upper and lower case; the asset passed on is the lowered one, and amount and
  destination are the ones given.
\<close>

theorem gasless_iff_usdc_any_case:
  assumes "WalletTransfer q a d g
             \<in> set (send_tokens w wallet_path from_address to_address quantity asset_id)"
  shows "g = usdc_any_case asset_id \<and> a = lower asset_id \<and> q = quantity \<and> d = to_address"
  using assms by (simp add: submission_iff lower_is_usdc)

theorem gasless_iff_usdc_any_case_witness:
  "WalletTransfer (Fin 10) ''usdc'' ''0xB0B'' True
     \<in> set (send_tokens ready_world ''./wallets'' ''0xA11CE'' ''0xB0B'' (Fin 10) ''UsDc'')
   \<and> usdc_any_case ''UsDc''
   \<and> WalletTransfer (Fin (1 / 4)) ''eth'' ''0xB0B'' False
     \<in> set (send_tokens ready_world ''./wallets'' ''0xA11CE'' ''0xB0B'' (Fin (1 / 4)) ''ETH'')
   \<and> \<not> usdc_any_case ''ETH''"
proof -
  have "covered ready_world (Fin 10) ''UsDc''" and "covered ready_world (Fin (1 / 4)) ''ETH''"
    by (simp_all add: covered_def ready_world_def lowered_words)
  then have r: "reaches_submission ready_world ''0xA11CE'' (Fin 10) ''UsDc''"
    "reaches_submission ready_world ''0xA11CE'' (Fin (1 / 4)) ''ETH''"
    by (simp_all add: reaches_submission_def ready_world_located ready_world_confirmed
        ready_world_file)
  have usdc: "WalletTransfer (Fin 10) ''usdc'' ''0xB0B'' True
     \<in> set (send_tokens ready_world ''./wallets'' ''0xA11CE'' ''0xB0B'' (Fin 10) ''UsDc'')"
    using r(1) by (simp add: submission_iff lowered_words)
  have eth: "WalletTransfer (Fin (1 / 4)) ''eth'' ''0xB0B'' False
     \<in> set (send_tokens ready_world ''./wallets'' ''0xA11CE'' ''0xB0B'' (Fin (1 / 4)) ''ETH'')"
    using r(2) by (simp add: submission_iff lowered_words)
  from gasless_iff_usdc_any_case [OF usdc] gasless_iff_usdc_any_case [OF eth] usdc eth
  show ?thesis by simp
qed

section \<open>Creating a wallet and funding it\<close>

lemma faucet_in_fund_wallet [simp]: "WalletFaucet \<in> set (fund_wallet w)"
  by (simp add: fund_wallet_def after_def split: outcome.splits)

lemma create_wallet_saved:
  assumes "created w = Returns wallet" and "default_address wallet = Some address"
    and "write_ok w"
  shows "create_wallet w network wallet_path =
           ([WalletCreate network,
             WriteWalletFile wallet_path (address @ ''.txt'') address network (wallet_id wallet),
             Print [S ''New wallet created successfully!''],
             Print [S ''Wallet ID: '', S (wallet_id wallet)],
             Print [S ''Address: '', S address],
             Print [S ''Network: '', S network],
             Print [S ''Can Sign: '', B (can_sign wallet)],
             Print [S ''Server Signer Status: '', S (server_signer_status wallet)],
             Print [S ''Wallet info saved to: '', Path wallet_path (address @ ''.txt'')]]
            @ (if network = ''base-sepolia''
               then Print [S ''Attempting to fund wallet with testnet ETH...''] # fund_wallet w
               else []),
            Returned)"
  using assms by (simp add: create_wallet_def after_def)

lemma create_wallet_not_saved:
  assumes "created w = Raises \<or> (\<exists>wallet. created w = Returns wallet
             \<and> (default_address wallet = None \<or> \<not> write_ok w))"
  shows "snd (create_wallet w network wallet_path) = SysExit 1"
    and "WalletFaucet \<notin> set (fst (create_wallet w network wallet_path))"
  using assms by (auto simp: create_wallet_def after_def split: outcome.splits option.splits)

text \<open>
  C8, as the code has it. \<open>create_wallet\<close> calls the faucet exactly when the network is
  \<open>base-sepolia\<close> and the wallet has been saved: \<open>Wallet.create\<close> returned a wallet with a
  default address and the wallet file was written. It returns normally exactly when the
  wallet has been saved, and otherwise ends the process with \<open>sys.exit(1)\<close>; how it ends
  does not depend on what the faucet, the wait for its transaction and the balance query
  do. When \<open>Wallet.create\<close> raises, the error is printed and \<open>sys.exit(1)\<close> ends the
  process.
\<close>

theorem faucet_on_base_sepolia_once_saved:
  "(WalletFaucet \<in> set (fst (create_wallet w network wallet_path))
      \<longleftrightarrow> network = ''base-sepolia'' \<and> wallet_saved w)
   \<and> snd (create_wallet w network wallet_path) = (if wallet_saved w then Returned else SysExit 1)
   \<and> snd (create_wallet (w\<lparr>faucet_result := fr, faucet_wait := fw, initial_balances := ib\<rparr>)
            network wallet_path)
      = snd (create_wallet w network wallet_path)
   \<and> (created w = Raises \<longrightarrow>
        create_wallet w network wallet_path =
          ([WalletCreate network, Print [S ''Error creating wallet: '', Obj ''str(e)''],
            Print [Obj ''traceback.format_exc()'']], SysExit 1))"
proof (intro conjI impI)
  show "(WalletFaucet \<in> set (fst (create_wallet w network wallet_path)))
          = (network = ''base-sepolia'' \<and> wallet_saved w)"
  proof (cases "wallet_saved w")
    case True
    then obtain wallet address where "created w = Returns wallet"
        "default_address wallet = Some address" "write_ok w"
      by (auto simp: wallet_saved_def split: outcome.splits)
    then show ?thesis
      using True by (simp add: create_wallet_saved)
  next
    case False
    then have "created w = Raises \<or> (\<exists>wallet. created w = Returns wallet
             \<and> (default_address wallet = None \<or> \<not> write_ok w))"
      by (auto simp: wallet_saved_def split: outcome.splits)
    then show ?thesis
      using False create_wallet_not_saved(2) by simp
  qed
next
  show "snd (create_wallet w network wallet_path) = (if wallet_saved w then Returned else SysExit 1)"
  proof (cases "wallet_saved w")
    case True
    then obtain wallet address where "created w = Returns wallet"
        "default_address wallet = Some address" "write_ok w"
      by (auto simp: wallet_saved_def split: outcome.splits)
    then show ?thesis
      using True by (simp add: create_wallet_saved)
  next
    case False
    then have "created w = Raises \<or> (\<exists>wallet. created w = Returns wallet
             \<and> (default_address wallet = None \<or> \<not> write_ok w))"
      by (auto simp: wallet_saved_def split: outcome.splits)
    then show ?thesis
      using False create_wallet_not_saved(1) by simp
  qed
next
  show "snd (create_wallet (w\<lparr>faucet_result := fr, faucet_wait := fw, initial_balances := ib\<rparr>)
            network wallet_path)
      = snd (create_wallet w network wallet_path)"
    by (simp add: create_wallet_def after_def split: outcome.splits option.splits)
next
  assume "created w = Raises"
  then show "create_wallet w network wallet_path =
          ([WalletCreate network, Print [S ''Error creating wallet: '', Obj ''str(e)''],
            Print [Obj ''traceback.format_exc()'']], SysExit 1)"
    by (simp add: create_wallet_def after_def)
qed

theorem faucet_on_base_sepolia_once_saved_witness:
  "wallet_saved dry_faucet
   \<and> WalletFaucet \<in> set (fst (create_wallet dry_faucet ''base-sepolia'' ''./wallets''))
   \<and> snd (create_wallet dry_faucet ''base-sepolia'' ''./wallets'') = Returned
   \<and> WalletFaucet \<notin> set (fst (create_wallet dry_faucet ''base-mainnet'' ''./wallets''))
   \<and> snd (create_wallet dry_faucet ''base-mainnet'' ''./wallets'') = Returned
   \<and> created (dry_faucet\<lparr>created := Raises\<rparr>) = Raises
   \<and> create_wallet (dry_faucet\<lparr>created := Raises\<rparr>) ''base-sepolia'' ''./wallets'' =
       ([WalletCreate ''base-sepolia'', Print [S ''Error creating wallet: '', Obj ''str(e)''],
         Print [Obj ''traceback.format_exc()'']], SysExit 1)"
proof -
  have saved: "wallet_saved dry_faucet"
    by (simp add: wallet_saved_def dry_faucet_def fresh_wallet_def)
  have gone: "created (dry_faucet\<lparr>created := Raises\<rparr>) = Raises"
    by simp
  have other: "''base-mainnet'' \<noteq> ''base-sepolia''"
    by simp
  show ?thesis
    using faucet_on_base_sepolia_once_saved [where w = dry_faucet
        and network = "''base-sepolia''" and wallet_path = "''./wallets''"]
      faucet_on_base_sepolia_once_saved [where w = dry_faucet
        and network = "''base-mainnet''" and wallet_path = "''./wallets''"]
      faucet_on_base_sepolia_once_saved [where w = "dry_faucet\<lparr>created := Raises\<rparr>"
        and network = "''base-sepolia''" and wallet_path = "''./wallets''"]
      saved gone other
    by simp
qed

text \<open>
  C8 as the claim states it fails: on \<open>base-sepolia\<close>, with \<open>Wallet.create\<close> returning a
  wallet, a wallet file that cannot be written ends the process with \<open>sys.exit(1)\<close> and
  the faucet is never called.
\<close>

theorem unwritable_wallet_file_is_not_funded:
  "created (dry_faucet\<lparr>write_ok := False\<rparr>) = Returns fresh_wallet
   \<and> create_wallet (dry_faucet\<lparr>write_ok := False\<rparr>) ''base-sepolia'' ''./wallets'' =
     ([WalletCreate ''base-sepolia'',
       WriteWalletFile ''./wallets'' ''0xA11CE.txt'' ''0xA11CE'' ''base-sepolia'' ''w-1'',
       Print [S ''Error creating wallet: '', Obj ''str(e)''],
       Print [Obj ''traceback.format_exc()'']],
      SysExit 1)
   \<and> WalletFaucet \<notin> set (fst (create_wallet (dry_faucet\<lparr>write_ok := False\<rparr>)
                                  ''base-sepolia'' ''./wallets''))"
  by (simp add: create_wallet_def after_def dry_faucet_def fresh_wallet_def)

section \<open>Usage and dispatch\<close>

text \<open>When start-up succeeds.\<close>

lemma wallet_manager_succeeds:
  "snd (wallet_manager su) = None \<longleftrightarrow>
     key_file_exists su \<and> configure_ok su \<and> (env_file_exists su \<or> template_written su)
     \<and> wallet_dir_ok su"
  by (auto simp: wallet_manager_def load_credentials_def load_env_config_def after_def)

text \<open>
  C9, as the code has it. Without a command, \<open>main\<close> prints the usage text and returns,
  before anything else. With a command, \<open>WalletManager()\<close> runs first; when that
  succeeds, a command that is none of the four, a \<open>send\<close> without exactly four arguments
  and a \<open>show-balance\<close> without exactly one print the usage text and return. When
  start-up fails, \<open>main\<close> ends as start-up ends, without the usage text.
\<close>

theorem usage_when_command_not_recognised:
  "(length argv < 2 \<longrightarrow> main to_float su argv = (print_usage, Ends Returned))
   \<and> (2 \<le> length argv \<and> snd (wallet_manager su) = None
       \<and> lower (argv ! 1) \<noteq> ''create-wallet'' \<and> lower (argv ! 1) \<noteq> ''list-wallets''
       \<and> (lower (argv ! 1) = ''send'' \<longrightarrow> length argv \<noteq> 6)
       \<and> (lower (argv ! 1) = ''show-balance'' \<longrightarrow> length argv \<noteq> 3)
      \<longrightarrow> main to_float su argv = (fst (wallet_manager su) @ print_usage, Ends Returned))
   \<and> (2 \<le> length argv \<and> snd (wallet_manager su) = Some stop
      \<longrightarrow> main to_float su argv = (fst (wallet_manager su), stop))"
  by (cases "wallet_manager su") (auto simp: main_def Let_def)

theorem usage_when_command_not_recognised_witness:
  "main py_float good_startup [''wallet_manager.py''] = (print_usage, Ends Returned)
   \<and> main py_float good_startup [''wallet_manager.py'', ''frobnicate''] =
       ([Print [S ''CDP SDK has been successfully configured from JSON file.''],
         Print [S ''Server signer has been enabled for transaction signing.'']] @ print_usage,
        Ends Returned)
   \<and> main py_float good_startup [''wallet_manager.py'', ''SEND'', ''0xA11CE'', ''0xB0B''] =
       ([Print [S ''CDP SDK has been successfully configured from JSON file.''],
         Print [S ''Server signer has been enabled for transaction signing.'']] @ print_usage,
        Ends Returned)
   \<and> main py_float no_key_file [''wallet_manager.py'', ''frobnicate''] =
       ([Print [S ''Error: cdp_api_key.json not found''],
         Print [S ''Please ensure your CDP API credentials are in cdp_api_key.json'']],
        Ends (SysExit 1))"
  using usage_when_command_not_recognised [of "[''wallet_manager.py'']" py_float good_startup]
    usage_when_command_not_recognised
      [of "[''wallet_manager.py'', ''frobnicate'']" py_float good_startup]
    usage_when_command_not_recognised
      [of "[''wallet_manager.py'', ''SEND'', ''0xA11CE'', ''0xB0B'']" py_float good_startup]
    usage_when_command_not_recognised
      [of "[''wallet_manager.py'', ''frobnicate'']" py_float no_key_file "Ends (SysExit 1)"]
  by (simp add: wallet_manager_good wallet_manager_no_key lower_send)

text \<open>
  C9 as the claim states it fails: a \<open>send\<close> with six arguments whose quantity is not a
  number ends in an uncaught \<open>ValueError\<close>, and an unknown command without
  \<open>cdp_api_key.json\<close> ends in \<open>sys.exit(1)\<close>; neither prints the usage text.
\<close>

theorem malformed_quantity_is_not_usage:
  "main py_float good_startup
     [''wallet_manager.py'', ''send'', ''0xA11CE'', ''0xB0B'', ''abc'', ''eth''] =
     ([Print [S ''CDP SDK has been successfully configured from JSON file.''],
       Print [S ''Server signer has been enabled for transaction signing.'']],
      Uncaught ''ValueError'')
   \<and> main py_float no_key_file [''wallet_manager.py'', ''frobnicate''] =
       ([Print [S ''Error: cdp_api_key.json not found''],
         Print [S ''Please ensure your CDP API credentials are in cdp_api_key.json'']],
        Ends (SysExit 1))"
  by (simp add: main_def wallet_manager_good wallet_manager_no_key lower_send abc_is_no_float)

section \<open>The order of the tests\<close>

text \<open>
  C10. The status, in lower case, is tested for \<open>complete\<close> first, then for \<open>failed\<close>,
  then for \<open>pending\<close>. So a status that contains \<open>complete\<close> ends the wait with \<open>True\<close>
  whatever else it contains (\<open>failed\<close>, \<open>pending\<close> or both), and a status without
  \<open>complete\<close> that contains \<open>failed\<close> ends it with \<open>False\<close> and the line
  \<open>Transfer failed!\<close> even when it contains \<open>pending\<close> too.
\<close>

theorem first_matching_keyword_decides:
  assumes "\<forall>j<k. \<exists>s. status_after (polls tr j) = Some s \<and> pending_status s"
    and "pass_time (polls tr) (start_time + int delay) k < start_time + m * 60000000"
    and "status_after (polls tr k) = Some st"
  shows "(str_in ''complete'' (lower st) \<longrightarrow>
            wait_for_transfer tr m start_time delay =
              (Returns True,
               transfer_details tr @ pending_events (polls tr) k
                 @ [TransferReload, Print [S ''Current status: '', S st],
                    Print [S ''Transfer completed!'']],
               pass_time (polls tr) (start_time + int delay) k + int (reload_time (polls tr k))))
       \<and> (\<not> str_in ''complete'' (lower st) \<and> str_in ''failed'' (lower st) \<longrightarrow>
            wait_for_transfer tr m start_time delay =
              (Returns False,
               transfer_details tr @ pending_events (polls tr) k
                 @ [TransferReload, Print [S ''Current status: '', S st],
                    Print [S ''Transfer failed!'']],
               pass_time (polls tr) (start_time + int delay) k + int (reload_time (polls tr k))))"
  by (simp add: wait_for_transfer_reaches [OF assms(1,2)]
      wait_loop_complete [where ps = "polls tr" and i = k, OF assms(2,3)]
      wait_loop_failed [where ps = "polls tr" and i = k, OF assms(2,3)])

theorem first_matching_keyword_decides_witness:
  "str_in ''complete'' (lower ''FAILED, then COMPLETE'')
   \<and> str_in ''failed'' (lower ''FAILED, then COMPLETE'')
   \<and> wait_for_transfer (two_keywords_transfer ''FAILED, then COMPLETE'') 10 0 0 =
       (Returns True,
        transfer_details (two_keywords_transfer ''FAILED, then COMPLETE'')
          @ [TransferReload, Print [S ''Current status: '', S ''FAILED, then COMPLETE''],
             Print [S ''Transfer completed!'']],
        150000)
   \<and> \<not> str_in ''complete'' (lower ''pending: FAILED'')
   \<and> str_in ''failed'' (lower ''pending: FAILED'')
   \<and> str_in ''pending'' (lower ''pending: FAILED'')
   \<and> wait_for_transfer (two_keywords_transfer ''pending: FAILED'') 10 0 0 =
       (Returns False,
        transfer_details (two_keywords_transfer ''pending: FAILED'')
          @ [TransferReload, Print [S ''Current status: '', S ''pending: FAILED''],
             Print [S ''Transfer failed!'']],
        150000)"
proof -
  have c: "str_in ''complete'' (lower ''FAILED, then COMPLETE'')"
    "str_in ''failed'' (lower ''FAILED, then COMPLETE'')"
    by code_simp+
  have f: "\<not> str_in ''complete'' (lower ''pending: FAILED'')"
    "str_in ''failed'' (lower ''pending: FAILED'')" "str_in ''pending'' (lower ''pending: FAILED'')"
    by code_simp+
  have none: "\<forall>j<0. \<exists>s. status_after (polls (two_keywords_transfer st) j) = Some s
                        \<and> pending_status s" for st
    by simp
  have early: "pass_time (polls (two_keywords_transfer st)) (0 + int 0) 0 < 0 + 10 * 60000000" for st
    by simp
  have seen: "status_after (polls (two_keywords_transfer st) 0) = Some st" for st
    by (simp add: two_keywords_transfer_def)
  have rt: "int (reload_time (polls (two_keywords_transfer st) 0)) = 150000" for st
    by (simp add: two_keywords_transfer_def)
  show ?thesis
    using first_matching_keyword_decides [OF none early seen, of "''FAILED, then COMPLETE''"]
      first_matching_keyword_decides [OF none early seen, of "''pending: FAILED''"] c f
    by (simp add: rt)
qed

end
